theory Spec2Isabelle
  imports Complex_Main "HOL-Library.Multiset" "HOL-Library.Sublist"
begin

section \<open>Token list: filtering, sorting, trends and row heights\<close>

text \<open>
  A shallow embedding of the list component \<^verbatim>\<open>TokenEventsList.tsx\<close> and of its
  sibling variant that receives filters and expansion state as props.

  Numbers. Where the code only compares two numbers, takes the sign of their difference or
  subtracts two millisecond timestamps, a finite double behaves as the real it denotes, and
  the number is a \<^typ>\<open>real\<close>. Where
  the code adds, multiplies or divides, the result is rounded, may overflow and may be
  NaN; there the numbers are values of an arbitrary type and the arithmetic of the runtime
  is a parameter, about which nothing is assumed. View indices and record counts are
  integral numbers, \<^typ>\<open>int\<close>.

  Strings. A string is the list of the bytes of its UTF-8 encoding; on well-formed strings
  containment of one string in another is the same on these bytes as on UTF-16 code units.
  \<^verbatim>\<open>String.prototype.toLowerCase\<close> and \<^verbatim>\<open>JSON.parse\<close> are library functions and are
  parameters as well. Debug logging and the statistics callback do not influence any
  returned value and are left out.
\<close>

subsection \<open>Strings\<close>

text \<open>\<^verbatim>\<open>s.includes(q)\<close>: \<open>q\<close> occurs in \<open>s\<close> as a contiguous run.\<close>

fun includesStr :: "string \<Rightarrow> string \<Rightarrow> bool" where
  "includesStr [] q = (q = [])"
| "includesStr (c # cs) q = (prefix q (c # cs) \<or> includesStr cs q)"

text \<open>\<^verbatim>\<open>s.endsWith(q)\<close>.\<close>

definition endsWith :: "string \<Rightarrow> string \<Rightarrow> bool" where
  "endsWith s q = prefix (rev q) (rev s)"

text \<open>\<^verbatim>\<open>s.replace(pat, rep)\<close> with a string pattern: only the first occurrence is replaced.\<close>

fun replaceFirst :: "string \<Rightarrow> string \<Rightarrow> string \<Rightarrow> string" where
  "replaceFirst pat rep [] = (if pat = [] then rep else [])"
| "replaceFirst pat rep (c # cs) =
     (if prefix pat (c # cs) then rep @ drop (length pat) (c # cs)
      else c # replaceFirst pat rep cs)"

subsection \<open>Numbers\<close>

text \<open>
  The double arithmetic of the runtime: \<open>jnum r\<close> is the double written as the literal
  \<open>r\<close> (or the double of an index or a length), \<open>jpow\<close> is \<^verbatim>\<open>Math.pow\<close>, \<open>jabs\<close> is
  \<^verbatim>\<open>Math.abs\<close> and \<open>jlt\<close> is the comparison \<^verbatim>\<open><\<close>, which is false as soon as one side
  is NaN.
\<close>

record 'n js_arith =
  jnum :: "real \<Rightarrow> 'n"
  jadd :: "'n \<Rightarrow> 'n \<Rightarrow> 'n"
  jsub :: "'n \<Rightarrow> 'n \<Rightarrow> 'n"
  jmul :: "'n \<Rightarrow> 'n \<Rightarrow> 'n"
  jdiv :: "'n \<Rightarrow> 'n \<Rightarrow> 'n"
  jpow :: "'n \<Rightarrow> 'n \<Rightarrow> 'n"
  jabs :: "'n \<Rightarrow> 'n"
  jlt :: "'n \<Rightarrow> 'n \<Rightarrow> bool"

subsection \<open>Data model\<close>

text \<open>
  Modelled from the spec: the declarations of \<^verbatim>\<open>Token\<close> and \<^verbatim>\<open>FilterState\<close> are
  imported from \<^verbatim>\<open>../types\<close>, which is not among the sources. The fields are the ones the
  component reads (for \<^verbatim>\<open>FilterState\<close>, the ones of the default object in
  \<^verbatim>\<open>getSavedFilters\<close>); their types follow the data model of the spec, with every
  number that is only compared a real, the record limit an integer, and the risk level kept
  as the string the code compares.
\<close>

record token =
  tokenAddress :: string
  tokenName :: string
  tokenSymbol :: string
  tokenAgeHours :: real
  gpHolderCount :: real
  hpLiquidityAmount :: real
  hpIsHoneypot :: bool
  riskLevel :: string
  gpOwnerAddress :: string
  gpLpHolders :: string

record filter_state =
  minHolders :: real
  minLiquidity :: real
  hideHoneypots :: bool
  showOnlyHoneypots :: bool
  hideDanger :: bool
  hideWarning :: bool
  showOnlySafe :: bool
  hideNotRenounced :: bool
  hideUnlockedLiquidity :: bool
  searchQuery :: string
  sortBy :: string
  sortDirection :: string
  maxRecords :: int
  hideStagnantHolders :: bool
  hideStagnantLiquidity :: bool
  stagnantRecordCount :: int

text \<open>
  One decoded entry of the serialized liquidity-lock descriptor; \<open>percent\<close> is the value
  of \<^verbatim>\<open>Number(holder.percent)\<close>.
\<close>

record 'n lp_holder =
  is_locked :: bool
  percent :: 'n

text \<open>
  \<^verbatim>\<open>JSON.parse\<close> is a library function; it is a parameter of the model. \<open>None\<close> stands for
  every way the guarded block can throw (a syntax error, or a decoded value that cannot be
  reduced as a list of holders).
\<close>

type_synonym 'n json_parse = "string \<Rightarrow> 'n lp_holder list option"

definition zeroAddress :: string where
  "zeroAddress = ''0x0000000000000000000000000000000000000000''"

subsection \<open>Filter predicate\<close>

text \<open>The \<^verbatim>\<open>try\<close> block of the unlocked-liquidity test: \<open>True\<close> when the token is rejected.\<close>

definition totalLocked :: "'n js_arith \<Rightarrow> 'n lp_holder list \<Rightarrow> 'n" where
  "totalLocked A lpHolders =
     foldl (\<lambda>acc holder.
              jadd A acc (if is_locked holder then jmul A (percent holder) (jnum A 100)
                          else jnum A 0))
       (jnum A 0) lpHolders"

definition unlockedLiquidity :: "'n js_arith \<Rightarrow> 'n json_parse \<Rightarrow> token \<Rightarrow> bool" where
  "unlockedLiquidity A jsonParse t =
     (case jsonParse (if gpLpHolders t = [] then ''[]'' else gpLpHolders t) of
        None \<Rightarrow> True
      | Some lpHolders \<Rightarrow> jlt A (totalLocked A lpHolders) (jnum A 90))"

text \<open>The three-way containment test of the search; \<open>toLowerCase\<close> is the library function.\<close>

definition searchToken :: "(string \<Rightarrow> string) \<Rightarrow> token \<Rightarrow> string \<Rightarrow> bool" where
  "searchToken toLowerCase t q =
     (let query = toLowerCase q in
        includesStr (toLowerCase (tokenName t)) query \<or>
        includesStr (toLowerCase (tokenSymbol t)) query \<or>
        includesStr (toLowerCase (tokenAddress t)) query)"

text \<open>The callback given to \<^verbatim>\<open>result.filter\<close> in \<^verbatim>\<open>TokenEventsList.tsx\<close>.\<close>

definition filterPredicate ::
  "'n js_arith \<Rightarrow> (string \<Rightarrow> string) \<Rightarrow> 'n json_parse \<Rightarrow> filter_state \<Rightarrow> token \<Rightarrow> bool" where
  "filterPredicate A toLowerCase jsonParse f t =
     (if hideHoneypots f \<and> hpIsHoneypot t then False
      else if showOnlyHoneypots f \<and> \<not> hpIsHoneypot t then False
      else if hideDanger f \<and> riskLevel t = ''danger'' then False
      else if hideWarning f \<and> riskLevel t = ''warning'' then False
      else if showOnlySafe f \<and> riskLevel t \<noteq> ''safe'' then False
      else if hideNotRenounced f \<and> gpOwnerAddress t \<noteq> zeroAddress then False
      else if hideUnlockedLiquidity f \<and> unlockedLiquidity A jsonParse t then False
      else if minHolders f > 0 \<and> gpHolderCount t < minHolders f then False
      else if minLiquidity f > 0 \<and> hpLiquidityAmount t < minLiquidity f then False
      else if searchQuery f \<noteq> [] then searchToken toLowerCase t (searchQuery f)
      else True)"

text \<open>The same callback in the props-driven variant: no ownership and no lock test.\<close>

definition filterPredicate_props :: "(string \<Rightarrow> string) \<Rightarrow> filter_state \<Rightarrow> token \<Rightarrow> bool" where
  "filterPredicate_props toLowerCase f t =
     (if hideHoneypots f \<and> hpIsHoneypot t then False
      else if showOnlyHoneypots f \<and> \<not> hpIsHoneypot t then False
      else if hideDanger f \<and> riskLevel t = ''danger'' then False
      else if hideWarning f \<and> riskLevel t = ''warning'' then False
      else if showOnlySafe f \<and> riskLevel t \<noteq> ''safe'' then False
      else if minHolders f > 0 \<and> gpHolderCount t < minHolders f then False
      else if minLiquidity f > 0 \<and> hpLiquidityAmount t < minLiquidity f then False
      else if searchQuery f \<noteq> [] then searchToken toLowerCase t (searchQuery f)
      else True)"

subsection \<open>Sorting and truncation\<close>

text \<open>
  \<^verbatim>\<open>Array.prototype.sort\<close> with a comparator: the sort is stable, so it is modelled as the
  insertion sort that places an element before the first later element it does not exceed.
\<close>

fun insertCmp :: "('a \<Rightarrow> 'a \<Rightarrow> real) \<Rightarrow> 'a \<Rightarrow> 'a list \<Rightarrow> 'a list" where
  "insertCmp cmp x [] = [x]"
| "insertCmp cmp x (y # ys) = (if cmp x y \<le> 0 then x # y # ys else y # insertCmp cmp x ys)"

definition arraySort :: "('a \<Rightarrow> 'a \<Rightarrow> real) \<Rightarrow> 'a list \<Rightarrow> 'a list" where
  "arraySort cmp xs = foldr (insertCmp cmp) xs []"

text \<open>
  \<^verbatim>\<open>xs.slice(0, end)\<close> for an integral \<open>end\<close>: a negative \<open>end\<close> counts from the end of
  the array.
\<close>

definition slice0 :: "int \<Rightarrow> 'a list \<Rightarrow> 'a list" where
  "slice0 e xs = (if e < 0 then take (nat (int (length xs) + e)) xs else take (nat e) xs)"

definition getRiskScore :: "token \<Rightarrow> real" where
  "getRiskScore t =
     (if riskLevel t = ''safe'' then 2
      else if riskLevel t = ''warning'' then 1
      else if riskLevel t = ''danger'' then 0
      else 0)"

text \<open>Direction and field name derived from \<^verbatim>\<open>sortBy\<close> at the head of the comparator.\<close>

definition sortSpec :: "string \<Rightarrow> real \<times> string" where
  "sortSpec s =
     (if endsWith s ''_asc'' then (1, replaceFirst ''_asc'' [] s) else (- 1, s))"

definition compareTokens :: "filter_state \<Rightarrow> token \<Rightarrow> token \<Rightarrow> real" where
  "compareTokens f a b =
     (let direction = fst (sortSpec (sortBy f)); field = snd (sortSpec (sortBy f)) in
      if field = ''age'' then (tokenAgeHours b - tokenAgeHours a) * direction
      else if field = ''holders'' then (gpHolderCount a - gpHolderCount b) * direction
      else if field = ''liquidity'' then (hpLiquidityAmount a - hpLiquidityAmount b) * direction
      else if field = ''safetyScore'' then (getRiskScore a - getRiskScore b) * direction
      else 0)"

text \<open>The memo \<^verbatim>\<open>filteredTokens\<close>: filter, sort, truncate.\<close>

definition filteredTokens ::
  "'n js_arith \<Rightarrow> (string \<Rightarrow> string) \<Rightarrow> 'n json_parse \<Rightarrow> filter_state \<Rightarrow> token list
     \<Rightarrow> token list" where
  "filteredTokens A toLowerCase jsonParse f tokens =
     slice0 (maxRecords f)
       (arraySort (compareTokens f) (filter (filterPredicate A toLowerCase jsonParse f) tokens))"

definition filteredTokens_props ::
  "(string \<Rightarrow> string) \<Rightarrow> filter_state \<Rightarrow> token list \<Rightarrow> token list" where
  "filteredTokens_props toLowerCase f tokens =
     slice0 (maxRecords f)
       (arraySort (compareTokens f) (filter (filterPredicate_props toLowerCase f) tokens))"

text \<open>Vocabulary for the ordering properties.\<close>

definition descendingBy :: "('a \<Rightarrow> real) \<Rightarrow> 'a list \<Rightarrow> bool" where
  "descendingBy key xs = sorted_wrt (\<lambda>a b. key b \<le> key a) xs"

definition ascendingBy :: "('a \<Rightarrow> real) \<Rightarrow> 'a list \<Rightarrow> bool" where
  "ascendingBy key xs = sorted_wrt (\<lambda>a b. key a \<le> key b) xs"

subsection \<open>Trend estimator\<close>

text \<open>
  Modelled from the spec: a history is typed \<^verbatim>\<open>any[]\<close> in the source; a sample has the
  three numeric fields the component reads, as the history-fetch contract of the spec lists
  them. The timestamp is only compared; the two metrics enter the arithmetic.
\<close>

record 'n history_sample =
  timestamp :: real
  totalLiquidity :: 'n
  holderCount :: 'n

datatype trend_type = Liquidity | Holders

datatype trend = Up | Down | Stagnant

definition selectY :: "trend_type \<Rightarrow> 'n history_sample \<Rightarrow> 'n" where
  "selectY ty r = (if ty = Liquidity then totalLiquidity r else holderCount r)"

text \<open>\<^verbatim>\<open>xs.reduce((acc, x, i) => f(acc, x, i), init)\<close>: a left fold that also sees the index.\<close>

definition reduceIdx :: "('b \<Rightarrow> 'a \<Rightarrow> nat \<Rightarrow> 'b) \<Rightarrow> 'b \<Rightarrow> 'a list \<Rightarrow> 'b" where
  "reduceIdx f init xs = foldl (\<lambda>acc (x, i). f acc x i) init (zip xs [0..<length xs])"

text \<open>
  The block "Calculate trend line": least-squares slope of the values against their
  position in the list, every operation being one of the runtime.
\<close>

definition trendSlope :: "'n js_arith \<Rightarrow> 'n list \<Rightarrow> 'n" where
  "trendSlope A yPoints =
     (let xPoints = map (\<lambda>i. jnum A (real i)) [0..<length yPoints];
          xMean = jdiv A (foldl (jadd A) (jnum A 0) xPoints) (jnum A (real (length xPoints)));
          yMean = jdiv A (foldl (jadd A) (jnum A 0) yPoints) (jnum A (real (length yPoints)))
      in jdiv A
           (reduceIdx
              (\<lambda>acc x i. jadd A acc (jmul A (jsub A x xMean) (jsub A (yPoints ! i) yMean)))
              (jnum A 0) xPoints)
           (foldl (\<lambda>acc x. jadd A acc (jpow A (jsub A x xMean) (jnum A 2))) (jnum A 0) xPoints))"

text \<open>The selected values in timestamp order: \<^verbatim>\<open>sortedHistory\<close> mapped to \<^verbatim>\<open>yPoints\<close>.\<close>

definition sortedValues :: "'n history_sample list \<Rightarrow> trend_type \<Rightarrow> 'n list" where
  "sortedValues history ty =
     map (selectY ty) (arraySort (\<lambda>a b. timestamp a - timestamp b) history)"

text \<open>
  \<^verbatim>\<open>calculateTrend\<close>. The last test is \<^verbatim>\<open>slope > 0\<close>; when the slope is NaN both tests
  are false and the result is \<^verbatim>\<open>down\<close>.
\<close>

definition calculateTrend :: "'n js_arith \<Rightarrow> 'n history_sample list \<Rightarrow> trend_type \<Rightarrow> trend" where
  "calculateTrend A history ty =
     (if length history < 2 then Stagnant
      else
        let slope = trendSlope A (sortedValues history ty);
            threshold = jnum A (5 / 100)
        in if jlt A (jabs A slope) threshold then Stagnant
           else if jlt A (jnum A 0) slope then Up else Down)"

text \<open>
  Vocabulary for the slope in exact arithmetic: the steps between neighbouring values, and
  the two double sums the slope is a quotient of.
\<close>

definition stepsAtLeast :: "real \<Rightarrow> real list \<Rightarrow> bool" where
  "stepsAtLeast d ys = successively (\<lambda>a b. a + d \<le> b) ys"

definition stepsAtMost :: "real \<Rightarrow> real list \<Rightarrow> bool" where
  "stepsAtMost d ys = successively (\<lambda>a b. b \<le> a + d) ys"

definition crossSum :: "real list \<Rightarrow> real" where
  "crossSum ys = (\<Sum>i<length ys. \<Sum>j<length ys. (real i - real j) * (ys ! i - ys ! j))"

definition squareSum :: "nat \<Rightarrow> real" where
  "squareSum n = (\<Sum>i<n. \<Sum>j<n. (real i - real j) * (real i - real j))"

subsection \<open>Expansion state, measured heights and the virtualizer\<close>

text \<open>
  Calls made on the virtualizer. The scroll is requested through
  \<^verbatim>\<open>requestAnimationFrame\<close>, so it is recorded as deferred; its fixed options
  (\<^verbatim>\<open>align: 'start'\<close>, \<^verbatim>\<open>behavior: 'smooth'\<close>) are not recorded.
\<close>

datatype virtualizer_call = Measure | DeferredScrollToIndex int

record view_state =
  expandedTokens :: "string set"
  measuredHeights :: "int \<rightharpoonup> real"
  calls :: "virtualizer_call list"

definition COLLAPSED_HEIGHT :: real where
  "COLLAPSED_HEIGHT = 42"

definition EXPANDED_HEIGHT :: real where
  "EXPANDED_HEIGHT = 800"

text \<open>\<^verbatim>\<open>xs[index]\<close>: \<^verbatim>\<open>undefined\<close> outside the array.\<close>

definition arrayGet :: "'a list \<Rightarrow> int \<Rightarrow> 'a option" where
  "arrayGet xs index =
     (if 0 \<le> index \<and> index < int (length xs) then Some (xs ! nat index) else None)"

text \<open>\<^verbatim>\<open>xs.findIndex(p)\<close>: the first position where \<open>p\<close> holds, \<open>-1\<close> when there is none.\<close>

fun findIndex :: "('a \<Rightarrow> bool) \<Rightarrow> 'a list \<Rightarrow> int" where
  "findIndex p [] = - 1"
| "findIndex p (x # xs) =
     (if p x then 0 else (let r = findIndex p xs in if r < 0 then - 1 else r + 1))"

text \<open>
  \<^verbatim>\<open>estimateSize\<close>. The first argument is the current value of the memo
  \<^verbatim>\<open>filteredTokens()\<close>; a measured height is used only when it is truthy, that is non-zero.
\<close>

definition estimateSize :: "token list \<Rightarrow> view_state \<Rightarrow> int \<Rightarrow> real" where
  "estimateSize filtered st index =
     (case arrayGet filtered index of
        None \<Rightarrow> COLLAPSED_HEIGHT
      | Some tok \<Rightarrow>
          (case measuredHeights st index of
             Some measuredHeight \<Rightarrow>
               if measuredHeight \<noteq> 0 then measuredHeight
               else if tokenAddress tok \<in> expandedTokens st then EXPANDED_HEIGHT
               else COLLAPSED_HEIGHT
           | None \<Rightarrow>
               if tokenAddress tok \<in> expandedTokens st then EXPANDED_HEIGHT
               else COLLAPSED_HEIGHT))"

definition toggleTokenExpansion :: "string \<Rightarrow> string set \<Rightarrow> string set" where
  "toggleTokenExpansion addr prev = (if addr \<in> prev then prev - {addr} else insert addr prev)"

text \<open>\<^verbatim>\<open>handleTokenClick\<close>, again with the value of \<^verbatim>\<open>filteredTokens()\<close> as first argument.\<close>

definition handleTokenClick :: "token list \<Rightarrow> string \<Rightarrow> view_state \<Rightarrow> view_state" where
  "handleTokenClick filtered addr st =
     (let index = findIndex (\<lambda>t. tokenAddress t = addr) filtered;
          newHeights = (measuredHeights st)(index := None)
      in st\<lparr>expandedTokens := toggleTokenExpansion addr (expandedTokens st),
            measuredHeights := newHeights,
            calls := calls st @ [Measure] @
                     (if index \<ge> 0 then [DeferredScrollToIndex index] else [])\<rparr>)"

text \<open>The updater run by the expand-all / collapse-all button.\<close>

definition toggleExpandAll :: "token list \<Rightarrow> string set \<Rightarrow> string set" where
  "toggleExpandAll currentTokens prev =
     (let hasExpanded = list_ex (\<lambda>tok. tokenAddress tok \<in> prev) currentTokens
      in if hasExpanded then {} else set (map tokenAddress currentTokens))"

subsection \<open>History cache\<close>

text \<open>
  Modelled from the spec: the persisted blob is untyped in the source. It is the object
  \<^verbatim>\<open>{ timestamp, data }\<close> that the loader destructures: a numeric
  timestamp and the stored object, a mapping from token identifier to samples, which
  \<^verbatim>\<open>new Map(Object.entries(data))\<close> turns into a map with the same entries.
\<close>

record 'n cache_blob =
  blob_timestamp :: real
  blob_data :: "string \<rightharpoonup> 'n history_sample list"

datatype js_error = SyntaxError

definition HISTORY_CACHE_EXPIRY :: real where
  "HISTORY_CACHE_EXPIRY = 5 * 60 * 1000"

text \<open>
  The body of the \<^verbatim>\<open>try\<close> block. Timestamps are millisecond counts as \<^verbatim>\<open>Date.now()\<close>
  yields them, whose difference is exact. \<open>cached\<close> is what \<^verbatim>\<open>localStorage.getItem\<close> returned
  (\<open>None\<close> for \<^verbatim>\<open>null\<close>; the empty string is falsy as well), \<open>now\<close> is
  \<^verbatim>\<open>Date.now()\<close>. The parser is a parameter and \<open>None\<close> is a thrown error. \<open>Inl\<close> is a
  throw, \<open>Inr (Some m)\<close> the value returned inside the block, \<open>Inr None\<close> falling out of
  it. The \<^verbatim>\<open>catch\<close> clause logs the error and falls through to the final
  \<^verbatim>\<open>return new Map()\<close>.
\<close>

definition loadCachedHistories_try ::
  "(string \<Rightarrow> 'n cache_blob option) \<Rightarrow> string option \<Rightarrow> real
     \<Rightarrow> js_error + (string \<rightharpoonup> 'n history_sample list) option" where
  "loadCachedHistories_try jsonParse cached now =
     (case cached of
        None \<Rightarrow> Inr None
      | Some c \<Rightarrow>
          if c = [] then Inr None
          else (case jsonParse c of
                  None \<Rightarrow> Inl SyntaxError
                | Some blob \<Rightarrow>
                    if now - blob_timestamp blob < HISTORY_CACHE_EXPIRY
                    then Inr (Some (blob_data blob)) else Inr None))"

definition loadCachedHistories ::
  "(string \<Rightarrow> 'n cache_blob option) \<Rightarrow> string option \<Rightarrow> real
     \<Rightarrow> (string \<rightharpoonup> 'n history_sample list)" where
  "loadCachedHistories jsonParse cached now =
     (case loadCachedHistories_try jsonParse cached now of
        Inl err \<Rightarrow> Map.empty
      | Inr (Some m) \<Rightarrow> m
      | Inr None \<Rightarrow> Map.empty)"

subsection \<open>Example inputs\<close>

text \<open>The default filter configuration returned by \<^verbatim>\<open>getSavedFilters\<close>.\<close>

definition defaultFilters :: filter_state where
  "defaultFilters =
     \<lparr>minHolders = 0, minLiquidity = 0, hideHoneypots = False, showOnlyHoneypots = False,
      hideDanger = False, hideWarning = False, showOnlySafe = False, hideNotRenounced = False,
      hideUnlockedLiquidity = False, searchQuery = [], sortBy = ''age'',
      sortDirection = ''desc'', maxRecords = 50, hideStagnantHolders = False,
      hideStagnantLiquidity = False, stagnantRecordCount = 10\<rparr>"

text \<open>
  An arithmetic without rounding: the reals with their exact operations. It agrees with
  double arithmetic on a computation all of whose values are doubles, as for the small
  integers and dyadic fractions of the examples, and none of whose divisors is zero.
\<close>

definition exactArith :: "real js_arith" where
  "exactArith =
     \<lparr>jnum = (\<lambda>r. r), jadd = (+), jsub = (-), jmul = (*), jdiv = (/),
      jpow = (\<lambda>x y. x ^ nat \<lfloor>y\<rfloor>), jabs = abs, jlt = (<)\<rparr>"


text \<open>
  Lowering of the ASCII letters; it agrees with \<^verbatim>\<open>toLowerCase\<close> on strings of ASCII
  characters, which is what the examples use.
\<close>

definition asciiLowerChar :: "char \<Rightarrow> char" where
  "asciiLowerChar c =
     (if (65::nat) \<le> of_char c \<and> of_char c \<le> (90::nat)
      then char_of (of_char c + (32::nat)) else c)"

definition asciiLower :: "string \<Rightarrow> string" where
  "asciiLower s = map asciiLowerChar s"

definition exampleParse :: "real json_parse" where
  "exampleParse s = (if s = ''[]'' then Some [] else None)"

definition tokenA :: token where
  "tokenA =
     \<lparr>tokenAddress = ''0xA1'', tokenName = ''Alpha'', tokenSymbol = ''ALP'',
      tokenAgeHours = 2, gpHolderCount = 50, hpLiquidityAmount = 1000, hpIsHoneypot = False,
      riskLevel = ''safe'', gpOwnerAddress = ''0x0000000000000000000000000000000000000000'',
      gpLpHolders = []\<rparr>"

definition tokenB :: token where
  "tokenB =
     \<lparr>tokenAddress = ''0xB2'', tokenName = ''Beta'', tokenSymbol = ''BET'',
      tokenAgeHours = 1, gpHolderCount = 5, hpLiquidityAmount = 20, hpIsHoneypot = False,
      riskLevel = ''danger'', gpOwnerAddress = ''0x17'', gpLpHolders = []\<rparr>"

definition tokenC :: token where
  "tokenC =
     \<lparr>tokenAddress = ''0xC3'', tokenName = ''Gamma'', tokenSymbol = ''GAM'',
      tokenAgeHours = 3, gpHolderCount = 7, hpLiquidityAmount = 300, hpIsHoneypot = True,
      riskLevel = ''warning'', gpOwnerAddress = ''0x17'', gpLpHolders = []\<rparr>"



definition historyRising :: "real history_sample list" where
  "historyRising =
     [\<lparr>timestamp = 30, totalLiquidity = 3, holderCount = 12\<rparr>,
      \<lparr>timestamp = 10, totalLiquidity = 1, holderCount = 10\<rparr>,
      \<lparr>timestamp = 20, totalLiquidity = 2, holderCount = 11\<rparr>]"




definition exampleState :: view_state where
  "exampleState =
     \<lparr>expandedTokens = {''0xA1''},
      measuredHeights = [0 \<mapsto> 0, 1 \<mapsto> 57, 2 \<mapsto> 61],
      calls = []\<rparr>"

definition exampleBlobFresh :: "real cache_blob" where
  "exampleBlobFresh =
     \<lparr>blob_timestamp = 900000, blob_data = [''0xA1'' \<mapsto> historyRising]\<rparr>"

definition exampleBlobOld :: "real cache_blob" where
  "exampleBlobOld =
     \<lparr>blob_timestamp = 640000, blob_data = [''0xA1'' \<mapsto> historyRising]\<rparr>"

definition exampleBlobParse :: "string \<Rightarrow> real cache_blob option" where
  "exampleBlobParse s =
     (if s = ''fresh'' then Some exampleBlobFresh
      else if s = ''old'' then Some exampleBlobOld
      else None)"

section \<open>Properties\<close>

lemmas str_eval = asciiLower_def asciiLowerChar_def char_of_def bit_Suc_0_iff endsWith_def

subsection \<open>Sorting and truncation lemmas\<close>

lemma mset_insertCmp: "mset (insertCmp cmp x xs) = add_mset x (mset xs)"
  by (induction xs) simp_all

lemma mset_arraySort: "mset (arraySort cmp xs) = mset xs"
  by (induction xs) (simp_all add: arraySort_def mset_insertCmp)

lemma insertCmp_insort_key:
  fixes k :: "'a \<Rightarrow> real"
  assumes "\<And>a b. (cmp a b \<le> 0) = (k a \<le> k b)"
  shows "insertCmp cmp x xs = insort_key k x xs"
  by (induction xs) (simp_all add: assms)

lemma arraySort_sort_key:
  fixes k :: "'a \<Rightarrow> real"
  assumes "\<And>a b. (cmp a b \<le> 0) = (k a \<le> k b)"
  shows "arraySort cmp xs = sort_key k xs"
  by (induction xs) (simp_all add: arraySort_def sort_key_def insertCmp_insort_key [OF assms])

lemma arraySort_ascending:
  fixes k :: "'a \<Rightarrow> real"
  assumes "\<And>a b. (cmp a b \<le> 0) = (k a \<le> k b)"
  shows "ascendingBy k (arraySort cmp xs)"
proof -
  have "sorted (map k (sort_key k xs))"
    by simp
  then have "sorted_wrt (\<lambda>a b. k a \<le> k b) (sort_key k xs)"
    by (simp only: sorted_map)
  then show ?thesis
    by (simp only: ascendingBy_def arraySort_sort_key [OF assms])
qed

lemma arraySort_descending:
  fixes k :: "'a \<Rightarrow> real"
  assumes "\<And>a b. (cmp a b \<le> 0) = (k b \<le> k a)"
  shows "descendingBy k (arraySort cmp xs)"
proof -
  have "\<And>a b. (cmp a b \<le> 0) = (- k a \<le> - k b)"
    by (simp add: assms)
  then have "ascendingBy (\<lambda>t. - k t) (arraySort cmp xs)"
    by (rule arraySort_ascending)
  then show ?thesis
    by (simp add: ascendingBy_def descendingBy_def)
qed

lemma mset_take_subset: "mset (take n xs) \<subseteq># mset xs"
proof -
  have "mset xs = mset (take n xs) + mset (drop n xs)"
    by (metis append_take_drop_id mset_append)
  then show ?thesis by simp
qed

lemma mset_slice0: "mset (slice0 e xs) \<subseteq># mset xs"
  by (simp add: slice0_def mset_take_subset)

lemma length_slice0: "0 \<le> e \<Longrightarrow> int (length (slice0 e xs)) \<le> e"
  by (simp add: slice0_def)

lemma ascendingBy_slice0: "ascendingBy k xs \<Longrightarrow> ascendingBy k (slice0 e xs)"
  by (simp add: ascendingBy_def slice0_def sorted_wrt_take)

lemma descendingBy_slice0: "descendingBy k xs \<Longrightarrow> descendingBy k (slice0 e xs)"
  by (simp add: descendingBy_def slice0_def sorted_wrt_take)

lemma sortSpec_values:
  "sortSpec ''age'' = (- 1, ''age'')"
  "sortSpec ''age_asc'' = (1, ''age'')"
  "sortSpec ''holders'' = (- 1, ''holders'')"
  "sortSpec ''holders_asc'' = (1, ''holders'')"
  "sortSpec ''liquidity'' = (- 1, ''liquidity'')"
  "sortSpec ''liquidity_asc'' = (1, ''liquidity'')"
  "sortSpec ''safetyScore'' = (- 1, ''safetyScore'')"
  "sortSpec ''safetyScore_asc'' = (1, ''safetyScore'')"
  by (simp_all add: sortSpec_def endsWith_def)

lemma compareTokens_cases:
  "sortBy f = ''age'' \<Longrightarrow> (compareTokens f a b \<le> 0) = (tokenAgeHours a \<le> tokenAgeHours b)"
  "sortBy f = ''age_asc'' \<Longrightarrow> (compareTokens f a b \<le> 0) = (tokenAgeHours b \<le> tokenAgeHours a)"
  "sortBy f = ''holders'' \<Longrightarrow> (compareTokens f a b \<le> 0) = (gpHolderCount b \<le> gpHolderCount a)"
  "sortBy f = ''holders_asc'' \<Longrightarrow> (compareTokens f a b \<le> 0) = (gpHolderCount a \<le> gpHolderCount b)"
  "sortBy f = ''liquidity'' \<Longrightarrow>
     (compareTokens f a b \<le> 0) = (hpLiquidityAmount b \<le> hpLiquidityAmount a)"
  "sortBy f = ''liquidity_asc'' \<Longrightarrow>
     (compareTokens f a b \<le> 0) = (hpLiquidityAmount a \<le> hpLiquidityAmount b)"
  "sortBy f = ''safetyScore'' \<Longrightarrow> (compareTokens f a b \<le> 0) = (getRiskScore b \<le> getRiskScore a)"
  "sortBy f = ''safetyScore_asc'' \<Longrightarrow>
     (compareTokens f a b \<le> 0) = (getRiskScore a \<le> getRiskScore b)"
  by (simp_all add: compareTokens_def sortSpec_values)

lemmas ex_eval = defaultFilters_def exampleParse_def tokenA_def tokenB_def tokenC_def
  filterPredicate_def filterPredicate_props_def searchToken_def unlockedLiquidity_def
  totalLocked_def zeroAddress_def exactArith_def

lemmas pipeline_eval = filteredTokens_def filteredTokens_props_def slice0_def arraySort_def
  compareTokens_def sortSpec_def getRiskScore_def

subsection \<open>Search query and the threshold tests\<close>

text \<open>
  Claim C1, as amended. The search test is the last test of the chain and the tests before
  it are not bypassed: with a non-empty \<^verbatim>\<open>searchQuery\<close>, a token is accepted exactly when
  it passes every honeypot, risk, ownership, lock, holder and liquidity test and the
  lower-cased name, symbol or address contains the lower-cased query. This holds for both
  variants of the predicate, whatever the runtime's arithmetic, \<^verbatim>\<open>toLowerCase\<close> and
  \<^verbatim>\<open>JSON.parse\<close> are.
\<close>

theorem search_is_last_test:
  assumes "searchQuery f \<noteq> []"
  shows "filterPredicate A toLowerCase p f t =
           (\<not> (hideHoneypots f \<and> hpIsHoneypot t) \<and>
            \<not> (showOnlyHoneypots f \<and> \<not> hpIsHoneypot t) \<and>
            \<not> (hideDanger f \<and> riskLevel t = ''danger'') \<and>
            \<not> (hideWarning f \<and> riskLevel t = ''warning'') \<and>
            \<not> (showOnlySafe f \<and> riskLevel t \<noteq> ''safe'') \<and>
            \<not> (hideNotRenounced f \<and> gpOwnerAddress t \<noteq> zeroAddress) \<and>
            \<not> (hideUnlockedLiquidity f \<and> unlockedLiquidity A p t) \<and>
            \<not> (minHolders f > 0 \<and> gpHolderCount t < minHolders f) \<and>
            \<not> (minLiquidity f > 0 \<and> hpLiquidityAmount t < minLiquidity f) \<and>
            (includesStr (toLowerCase (tokenName t)) (toLowerCase (searchQuery f)) \<or>
             includesStr (toLowerCase (tokenSymbol t)) (toLowerCase (searchQuery f)) \<or>
             includesStr (toLowerCase (tokenAddress t)) (toLowerCase (searchQuery f)))) \<and>
         filterPredicate_props toLowerCase f t =
           (\<not> (hideHoneypots f \<and> hpIsHoneypot t) \<and>
            \<not> (showOnlyHoneypots f \<and> \<not> hpIsHoneypot t) \<and>
            \<not> (hideDanger f \<and> riskLevel t = ''danger'') \<and>
            \<not> (hideWarning f \<and> riskLevel t = ''warning'') \<and>
            \<not> (showOnlySafe f \<and> riskLevel t \<noteq> ''safe'') \<and>
            \<not> (minHolders f > 0 \<and> gpHolderCount t < minHolders f) \<and>
            \<not> (minLiquidity f > 0 \<and> hpLiquidityAmount t < minLiquidity f) \<and>
            (includesStr (toLowerCase (tokenName t)) (toLowerCase (searchQuery f)) \<or>
             includesStr (toLowerCase (tokenSymbol t)) (toLowerCase (searchQuery f)) \<or>
             includesStr (toLowerCase (tokenAddress t)) (toLowerCase (searchQuery f))))"
proof
  show "filterPredicate A toLowerCase p f t =
           (\<not> (hideHoneypots f \<and> hpIsHoneypot t) \<and>
            \<not> (showOnlyHoneypots f \<and> \<not> hpIsHoneypot t) \<and>
            \<not> (hideDanger f \<and> riskLevel t = ''danger'') \<and>
            \<not> (hideWarning f \<and> riskLevel t = ''warning'') \<and>
            \<not> (showOnlySafe f \<and> riskLevel t \<noteq> ''safe'') \<and>
            \<not> (hideNotRenounced f \<and> gpOwnerAddress t \<noteq> zeroAddress) \<and>
            \<not> (hideUnlockedLiquidity f \<and> unlockedLiquidity A p t) \<and>
            \<not> (minHolders f > 0 \<and> gpHolderCount t < minHolders f) \<and>
            \<not> (minLiquidity f > 0 \<and> hpLiquidityAmount t < minLiquidity f) \<and>
            (includesStr (toLowerCase (tokenName t)) (toLowerCase (searchQuery f)) \<or>
             includesStr (toLowerCase (tokenSymbol t)) (toLowerCase (searchQuery f)) \<or>
             includesStr (toLowerCase (tokenAddress t)) (toLowerCase (searchQuery f))))"
    unfolding filterPredicate_def searchToken_def Let_def
    using assms by (simp only: if_False if_True split: if_split) blast
next
  show "filterPredicate_props toLowerCase f t =
           (\<not> (hideHoneypots f \<and> hpIsHoneypot t) \<and>
            \<not> (showOnlyHoneypots f \<and> \<not> hpIsHoneypot t) \<and>
            \<not> (hideDanger f \<and> riskLevel t = ''danger'') \<and>
            \<not> (hideWarning f \<and> riskLevel t = ''warning'') \<and>
            \<not> (showOnlySafe f \<and> riskLevel t \<noteq> ''safe'') \<and>
            \<not> (minHolders f > 0 \<and> gpHolderCount t < minHolders f) \<and>
            \<not> (minLiquidity f > 0 \<and> hpLiquidityAmount t < minLiquidity f) \<and>
            (includesStr (toLowerCase (tokenName t)) (toLowerCase (searchQuery f)) \<or>
             includesStr (toLowerCase (tokenSymbol t)) (toLowerCase (searchQuery f)) \<or>
             includesStr (toLowerCase (tokenAddress t)) (toLowerCase (searchQuery f))))"
    unfolding filterPredicate_props_def searchToken_def Let_def
    using assms by (simp only: if_False if_True split: if_split) blast
qed

theorem search_is_last_test_witness:
  "searchQuery (defaultFilters\<lparr>minHolders := 10, searchQuery := ''aLPh''\<rparr>) \<noteq> [] \<and>
   searchQuery (defaultFilters\<lparr>minHolders := 10, searchQuery := ''aLPh''\<rparr>) \<noteq> tokenName tokenA \<and>
   filterPredicate exactArith asciiLower exampleParse (defaultFilters\<lparr>minHolders := 10, searchQuery := ''aLPh''\<rparr>) tokenA \<and>
   filterPredicate_props asciiLower (defaultFilters\<lparr>minHolders := 10, searchQuery := ''aLPh''\<rparr>) tokenA \<and>
   \<not> filterPredicate exactArith asciiLower exampleParse (defaultFilters\<lparr>minHolders := 10, searchQuery := ''aLPh''\<rparr>) tokenB \<and>
   \<not> filterPredicate exactArith asciiLower exampleParse (defaultFilters\<lparr>hideUnlockedLiquidity := True, searchQuery := ''alpha''\<rparr>) tokenA \<and>
   filterPredicate_props asciiLower (defaultFilters\<lparr>hideUnlockedLiquidity := True, searchQuery := ''alpha''\<rparr>) tokenA"
proof -
  have h1: "searchQuery (defaultFilters\<lparr>minHolders := 10, searchQuery := ''aLPh''\<rparr>) \<noteq> []"
    by (simp add: defaultFilters_def)
  have h2: "searchQuery (defaultFilters\<lparr>hideUnlockedLiquidity := True, searchQuery := ''alpha''\<rparr>) \<noteq> []"
    by (simp add: defaultFilters_def)
  have n: "searchQuery (defaultFilters\<lparr>minHolders := 10, searchQuery := ''aLPh''\<rparr>) \<noteq> tokenName tokenA"
    by (simp add: defaultFilters_def tokenA_def)
  have a: "filterPredicate exactArith asciiLower exampleParse (defaultFilters\<lparr>minHolders := 10, searchQuery := ''aLPh''\<rparr>) tokenA"
    using search_is_last_test [where A = exactArith and toLowerCase = asciiLower and p = exampleParse and t = tokenA, OF h1]
    by (simp add: ex_eval str_eval)
  have b: "filterPredicate_props asciiLower (defaultFilters\<lparr>minHolders := 10, searchQuery := ''aLPh''\<rparr>) tokenA"
    using search_is_last_test [where A = exactArith and toLowerCase = asciiLower and p = exampleParse and t = tokenA, OF h1]
    by (simp add: ex_eval str_eval)
  have c: "\<not> filterPredicate exactArith asciiLower exampleParse (defaultFilters\<lparr>minHolders := 10, searchQuery := ''aLPh''\<rparr>) tokenB"
    using search_is_last_test [where A = exactArith and toLowerCase = asciiLower and p = exampleParse and t = tokenB, OF h1]
    by (simp add: ex_eval str_eval)
  have d: "\<not> filterPredicate exactArith asciiLower exampleParse (defaultFilters\<lparr>hideUnlockedLiquidity := True, searchQuery := ''alpha''\<rparr>) tokenA"
    using search_is_last_test [where A = exactArith and toLowerCase = asciiLower and p = exampleParse and t = tokenA, OF h2]
    by (simp add: ex_eval str_eval)
  have e: "filterPredicate_props asciiLower (defaultFilters\<lparr>hideUnlockedLiquidity := True, searchQuery := ''alpha''\<rparr>) tokenA"
    using search_is_last_test [where A = exactArith and toLowerCase = asciiLower and p = exampleParse and t = tokenA, OF h2]
    by (simp add: ex_eval str_eval)
  from h1 n a b c d e show ?thesis
    by (intro conjI)
qed

text \<open>
  Claim C1 as stated fails: with \<^verbatim>\<open>hideDanger\<close> set, a token of risk level
  \<^verbatim>\<open>danger\<close> whose name matches the query is rejected by the risk test, which runs before
  the search test.
\<close>

theorem search_match_rejected_counterexample:
  "searchQuery (defaultFilters\<lparr>hideDanger := True, searchQuery := ''beta''\<rparr>) \<noteq> [] \<and>
   includesStr (asciiLower (tokenName tokenB))
     (asciiLower (searchQuery (defaultFilters\<lparr>hideDanger := True, searchQuery := ''beta''\<rparr>))) \<and>
   \<not> filterPredicate exactArith asciiLower exampleParse
       (defaultFilters\<lparr>hideDanger := True, searchQuery := ''beta''\<rparr>) tokenB \<and>
   \<not> filterPredicate_props asciiLower (defaultFilters\<lparr>hideDanger := True, searchQuery := ''beta''\<rparr>) tokenB"
  by (simp add: ex_eval str_eval)

subsection \<open>Contradictory honeypot flags\<close>

text \<open>
  Claim C6. When \<^verbatim>\<open>hideHoneypots\<close> and \<^verbatim>\<open>showOnlyHoneypots\<close> are both set, the first test
  rejects every honeypot and the second every other token, so the output is empty for every
  token collection.
\<close>

theorem honeypot_flags_both_set:
  assumes "hideHoneypots f" and "showOnlyHoneypots f"
  shows "filteredTokens A toLowerCase p f T = [] \<and> filteredTokens_props toLowerCase f T = []"
proof -
  have "filter (filterPredicate A toLowerCase p f) T = []"
    using assms by (simp add: filterPredicate_def)
  moreover have "filter (filterPredicate_props toLowerCase f) T = []"
    using assms by (simp add: filterPredicate_props_def)
  ultimately show ?thesis
    by (simp add: filteredTokens_def filteredTokens_props_def arraySort_def slice0_def)
qed

theorem honeypot_flags_both_set_witness:
  "hideHoneypots (defaultFilters\<lparr>hideHoneypots := True, showOnlyHoneypots := True\<rparr>) \<and>
   showOnlyHoneypots (defaultFilters\<lparr>hideHoneypots := True, showOnlyHoneypots := True\<rparr>) \<and>
   filteredTokens exactArith asciiLower exampleParse (defaultFilters\<lparr>hideHoneypots := True, showOnlyHoneypots := True\<rparr>)
     [tokenA, tokenB, tokenC] = [] \<and>
   filteredTokens_props asciiLower (defaultFilters\<lparr>hideHoneypots := True, showOnlyHoneypots := True\<rparr>)
     [tokenA, tokenB, tokenC] = []"
proof -
  have h1: "hideHoneypots (defaultFilters\<lparr>hideHoneypots := True, showOnlyHoneypots := True\<rparr>)"
    by (simp add: defaultFilters_def)
  have h2: "showOnlyHoneypots (defaultFilters\<lparr>hideHoneypots := True, showOnlyHoneypots := True\<rparr>)"
    by (simp add: defaultFilters_def)
  show ?thesis
    using h1 h2 honeypot_flags_both_set [where A = exactArith and toLowerCase = asciiLower and p = exampleParse
        and T = "[tokenA, tokenB, tokenC]", OF h1 h2]
    by simp
qed

subsection \<open>The output against the input\<close>

lemma filteredTokens_forms:
  assumes "out = filteredTokens A toLowerCase p f T \<or> out = filteredTokens_props toLowerCase f T"
  obtains P where "out = slice0 (maxRecords f) (arraySort (compareTokens f) (filter P T))"
  using assms by (auto simp: filteredTokens_def filteredTokens_props_def)

text \<open>
  Claim C3, as amended. For every token collection and every filter configuration, the
  output of the engine (either variant) contains only entries of the input, none more often
  than the input does; when \<^verbatim>\<open>maxRecords\<close> is not negative the output has at most
  \<^verbatim>\<open>maxRecords\<close> entries. The entries come in sort order, not in input order.
\<close>

theorem output_within_input:
  assumes "out = filteredTokens A toLowerCase p f T \<or> out = filteredTokens_props toLowerCase f T"
  shows "mset out \<subseteq># mset T \<and> set out \<subseteq> set T \<and>
         (0 \<le> maxRecords f \<longrightarrow> int (length out) \<le> maxRecords f)"
proof -
  from assms obtain P
    where out: "out = slice0 (maxRecords f) (arraySort (compareTokens f) (filter P T))"
    by (rule filteredTokens_forms)
  have "mset out \<subseteq># mset (arraySort (compareTokens f) (filter P T))"
    unfolding out by (rule mset_slice0)
  also have "\<dots> = filter_mset P (mset T)"
    by (simp add: mset_arraySort)
  also have "\<dots> \<subseteq># mset T"
    by (rule multiset_filter_subset)
  finally have sub: "mset out \<subseteq># mset T" .
  then have "set_mset (mset out) \<subseteq> set_mset (mset T)"
    by (rule set_mset_mono)
  then have "set out \<subseteq> set T"
    by simp
  moreover have "0 \<le> maxRecords f \<longrightarrow> int (length out) \<le> maxRecords f"
    unfolding out by (simp add: length_slice0)
  ultimately show ?thesis
    using sub by simp
qed

theorem output_within_input_witness:
  "filteredTokens exactArith asciiLower exampleParse (defaultFilters\<lparr>maxRecords := 2\<rparr>) [tokenA, tokenB, tokenC]
     = [tokenB, tokenA] \<and>
   mset [tokenB, tokenA] \<subseteq># mset [tokenA, tokenB, tokenC] \<and>
   set [tokenB, tokenA] \<subseteq> set [tokenA, tokenB, tokenC] \<and>
   0 \<le> maxRecords (defaultFilters\<lparr>maxRecords := 2\<rparr>) \<and>
   int (length [tokenB, tokenA]) \<le> maxRecords (defaultFilters\<lparr>maxRecords := 2\<rparr>)"
proof -
  have e: "filteredTokens exactArith asciiLower exampleParse (defaultFilters\<lparr>maxRecords := 2\<rparr>) [tokenA, tokenB, tokenC]
             = [tokenB, tokenA]"
    by (simp add: pipeline_eval ex_eval str_eval)
  have h: "[tokenB, tokenA] =
             filteredTokens exactArith asciiLower exampleParse (defaultFilters\<lparr>maxRecords := 2\<rparr>) [tokenA, tokenB, tokenC] \<or>
           [tokenB, tokenA] =
             filteredTokens_props asciiLower (defaultFilters\<lparr>maxRecords := 2\<rparr>) [tokenA, tokenB, tokenC]"
    using e by simp
  have m: "0 \<le> maxRecords (defaultFilters\<lparr>maxRecords := 2\<rparr>)"
    by (simp add: defaultFilters_def)
  show ?thesis
    using e m output_within_input [OF h] by simp
qed

text \<open>
  Claim C3 as stated fails on both counts at one input: sorting by age puts the second token
  first, so the output is not a subsequence of the input, and with \<^verbatim>\<open>maxRecords = -1\<close>
  the slice drops only the last entry and leaves two.
\<close>

theorem output_not_subsequence_counterexample:
  "\<not> subseq (filteredTokens exactArith asciiLower exampleParse (defaultFilters\<lparr>maxRecords := - 1\<rparr>)
               [tokenA, tokenB, tokenC]) [tokenA, tokenB, tokenC] \<and>
   \<not> int (length (filteredTokens exactArith asciiLower exampleParse (defaultFilters\<lparr>maxRecords := - 1\<rparr>)
                      [tokenA, tokenB, tokenC]))
       \<le> maxRecords (defaultFilters\<lparr>maxRecords := - 1\<rparr>)"
proof -
  have e: "filteredTokens exactArith asciiLower exampleParse (defaultFilters\<lparr>maxRecords := - 1\<rparr>)
             [tokenA, tokenB, tokenC] = [tokenB, tokenA]"
    by (simp add: pipeline_eval ex_eval str_eval)
  have "tokenB \<noteq> tokenA" and "tokenA \<noteq> tokenC"
    by (simp_all add: tokenA_def tokenB_def tokenC_def)
  then have "\<not> subseq [tokenB, tokenA] [tokenA, tokenB, tokenC]"
    by (simp add: subseq_Cons2_iff)
  then show ?thesis
    using e by (simp add: defaultFilters_def)
qed

subsection \<open>Sort order\<close>

lemma pipeline_ascending:
  assumes "\<And>a b. (compareTokens f a b \<le> 0) = (k a \<le> k b)"
  shows "ascendingBy k (slice0 e (arraySort (compareTokens f) xs))"
  by (rule ascendingBy_slice0) (rule arraySort_ascending [OF assms])

lemma pipeline_descending:
  assumes "\<And>a b. (compareTokens f a b \<le> 0) = (k b \<le> k a)"
  shows "descendingBy k (slice0 e (arraySort (compareTokens f) xs))"
  by (rule descendingBy_slice0) (rule arraySort_descending [OF assms])

text \<open>
  Claim C2, as amended. For \<^verbatim>\<open>holders\<close>, \<^verbatim>\<open>liquidity\<close> and \<^verbatim>\<open>safetyScore\<close> the output
  is descending on the field and the suffix \<^verbatim>\<open>_asc\<close> makes it ascending. For \<^verbatim>\<open>age\<close>
  the comparator subtracts the other way round: \<^verbatim>\<open>age\<close> gives ascending
  \<^verbatim>\<open>tokenAgeHours\<close> (newest first) and \<^verbatim>\<open>age_asc\<close> descending \<^verbatim>\<open>tokenAgeHours\<close>
  (oldest first).
\<close>

theorem sort_orientation:
  assumes "out = filteredTokens A toLowerCase p f T \<or> out = filteredTokens_props toLowerCase f T"
  shows "(sortBy f = ''holders'' \<longrightarrow> descendingBy gpHolderCount out) \<and>
         (sortBy f = ''holders_asc'' \<longrightarrow> ascendingBy gpHolderCount out) \<and>
         (sortBy f = ''liquidity'' \<longrightarrow> descendingBy hpLiquidityAmount out) \<and>
         (sortBy f = ''liquidity_asc'' \<longrightarrow> ascendingBy hpLiquidityAmount out) \<and>
         (sortBy f = ''safetyScore'' \<longrightarrow> descendingBy getRiskScore out) \<and>
         (sortBy f = ''safetyScore_asc'' \<longrightarrow> ascendingBy getRiskScore out) \<and>
         (sortBy f = ''age'' \<longrightarrow> ascendingBy tokenAgeHours out) \<and>
         (sortBy f = ''age_asc'' \<longrightarrow> descendingBy tokenAgeHours out)"
proof -
  from assms obtain P
    where out: "out = slice0 (maxRecords f) (arraySort (compareTokens f) (filter P T))"
    by (rule filteredTokens_forms)
  have 1: "sortBy f = ''holders'' \<longrightarrow> descendingBy gpHolderCount out"
    unfolding out by (intro impI pipeline_descending compareTokens_cases)
  have 2: "sortBy f = ''holders_asc'' \<longrightarrow> ascendingBy gpHolderCount out"
    unfolding out by (intro impI pipeline_ascending compareTokens_cases)
  have 3: "sortBy f = ''liquidity'' \<longrightarrow> descendingBy hpLiquidityAmount out"
    unfolding out by (intro impI pipeline_descending compareTokens_cases)
  have 4: "sortBy f = ''liquidity_asc'' \<longrightarrow> ascendingBy hpLiquidityAmount out"
    unfolding out by (intro impI pipeline_ascending compareTokens_cases)
  have 5: "sortBy f = ''safetyScore'' \<longrightarrow> descendingBy getRiskScore out"
    unfolding out by (intro impI pipeline_descending compareTokens_cases)
  have 6: "sortBy f = ''safetyScore_asc'' \<longrightarrow> ascendingBy getRiskScore out"
    unfolding out by (intro impI pipeline_ascending compareTokens_cases)
  have 7: "sortBy f = ''age'' \<longrightarrow> ascendingBy tokenAgeHours out"
    unfolding out by (intro impI pipeline_ascending compareTokens_cases)
  have 8: "sortBy f = ''age_asc'' \<longrightarrow> descendingBy tokenAgeHours out"
    unfolding out by (intro impI pipeline_descending compareTokens_cases)
  from 1 2 3 4 5 6 7 8 show ?thesis
    by (intro conjI)
qed

theorem sort_orientation_witness:
  "descendingBy gpHolderCount
     (filteredTokens exactArith asciiLower exampleParse (defaultFilters\<lparr>sortBy := ''holders''\<rparr>) [tokenA, tokenB, tokenC]) \<and>
   ascendingBy gpHolderCount
     (filteredTokens exactArith asciiLower exampleParse (defaultFilters\<lparr>sortBy := ''holders_asc''\<rparr>) [tokenA, tokenB, tokenC]) \<and>
   descendingBy hpLiquidityAmount
     (filteredTokens exactArith asciiLower exampleParse (defaultFilters\<lparr>sortBy := ''liquidity''\<rparr>) [tokenA, tokenB, tokenC]) \<and>
   ascendingBy hpLiquidityAmount
     (filteredTokens exactArith asciiLower exampleParse (defaultFilters\<lparr>sortBy := ''liquidity_asc''\<rparr>) [tokenA, tokenB, tokenC]) \<and>
   descendingBy getRiskScore
     (filteredTokens exactArith asciiLower exampleParse (defaultFilters\<lparr>sortBy := ''safetyScore''\<rparr>) [tokenA, tokenB, tokenC]) \<and>
   ascendingBy getRiskScore
     (filteredTokens exactArith asciiLower exampleParse (defaultFilters\<lparr>sortBy := ''safetyScore_asc''\<rparr>) [tokenA, tokenB, tokenC]) \<and>
   ascendingBy tokenAgeHours
     (filteredTokens exactArith asciiLower exampleParse (defaultFilters\<lparr>sortBy := ''age''\<rparr>) [tokenA, tokenB, tokenC]) \<and>
   descendingBy tokenAgeHours
     (filteredTokens exactArith asciiLower exampleParse (defaultFilters\<lparr>sortBy := ''age_asc''\<rparr>) [tokenA, tokenB, tokenC]) \<and>
   filteredTokens exactArith asciiLower exampleParse (defaultFilters\<lparr>sortBy := ''holders''\<rparr>) [tokenA, tokenB, tokenC]
     = [tokenA, tokenC, tokenB]"
proof -
  have s: "sortBy (defaultFilters\<lparr>sortBy := x\<rparr>) = x" for x
    by simp
  have e: "filteredTokens exactArith asciiLower exampleParse (defaultFilters\<lparr>sortBy := ''holders''\<rparr>)
             [tokenA, tokenB, tokenC] = [tokenA, tokenC, tokenB]"
    by (simp add: pipeline_eval ex_eval str_eval)
  note w = sort_orientation [where A = exactArith and toLowerCase = asciiLower and p = exampleParse
      and T = "[tokenA, tokenB, tokenC]", OF disjI1 [OF refl]]
  have "descendingBy gpHolderCount
     (filteredTokens exactArith asciiLower exampleParse (defaultFilters\<lparr>sortBy := ''holders''\<rparr>) [tokenA, tokenB, tokenC])"
    using w [where f = "defaultFilters\<lparr>sortBy := ''holders''\<rparr>"] by (simp only: s simp_thms)
  moreover have "ascendingBy gpHolderCount
     (filteredTokens exactArith asciiLower exampleParse (defaultFilters\<lparr>sortBy := ''holders_asc''\<rparr>) [tokenA, tokenB, tokenC])"
    using w [where f = "defaultFilters\<lparr>sortBy := ''holders_asc''\<rparr>"] by (simp only: s simp_thms)
  moreover have "descendingBy hpLiquidityAmount
     (filteredTokens exactArith asciiLower exampleParse (defaultFilters\<lparr>sortBy := ''liquidity''\<rparr>) [tokenA, tokenB, tokenC])"
    using w [where f = "defaultFilters\<lparr>sortBy := ''liquidity''\<rparr>"] by (simp only: s simp_thms)
  moreover have "ascendingBy hpLiquidityAmount
     (filteredTokens exactArith asciiLower exampleParse (defaultFilters\<lparr>sortBy := ''liquidity_asc''\<rparr>) [tokenA, tokenB, tokenC])"
    using w [where f = "defaultFilters\<lparr>sortBy := ''liquidity_asc''\<rparr>"] by (simp only: s simp_thms)
  moreover have "descendingBy getRiskScore
     (filteredTokens exactArith asciiLower exampleParse (defaultFilters\<lparr>sortBy := ''safetyScore''\<rparr>) [tokenA, tokenB, tokenC])"
    using w [where f = "defaultFilters\<lparr>sortBy := ''safetyScore''\<rparr>"] by (simp only: s simp_thms)
  moreover have "ascendingBy getRiskScore
     (filteredTokens exactArith asciiLower exampleParse (defaultFilters\<lparr>sortBy := ''safetyScore_asc''\<rparr>) [tokenA, tokenB, tokenC])"
    using w [where f = "defaultFilters\<lparr>sortBy := ''safetyScore_asc''\<rparr>"] by (simp only: s simp_thms)
  moreover have "ascendingBy tokenAgeHours
     (filteredTokens exactArith asciiLower exampleParse (defaultFilters\<lparr>sortBy := ''age''\<rparr>) [tokenA, tokenB, tokenC])"
    using w [where f = "defaultFilters\<lparr>sortBy := ''age''\<rparr>"] by (simp only: s simp_thms)
  moreover have "descendingBy tokenAgeHours
     (filteredTokens exactArith asciiLower exampleParse (defaultFilters\<lparr>sortBy := ''age_asc''\<rparr>) [tokenA, tokenB, tokenC])"
    using w [where f = "defaultFilters\<lparr>sortBy := ''age_asc''\<rparr>"] by (simp only: s simp_thms)
  ultimately show ?thesis
    using e by (intro conjI)
qed

text \<open>
  Claim C2 as stated fails for \<^verbatim>\<open>sortBy = "age"\<close>: the younger token comes first, so the
  output is not descending on \<^verbatim>\<open>tokenAgeHours\<close>.
\<close>

theorem age_sort_not_descending_counterexample:
  "sortBy defaultFilters = ''age'' \<and>
   filteredTokens exactArith asciiLower exampleParse defaultFilters [tokenA, tokenB] = [tokenB, tokenA] \<and>
   \<not> descendingBy tokenAgeHours (filteredTokens exactArith asciiLower exampleParse defaultFilters [tokenA, tokenB])"
proof -
  have e: "filteredTokens exactArith asciiLower exampleParse defaultFilters [tokenA, tokenB] = [tokenB, tokenA]"
    by (simp add: pipeline_eval ex_eval str_eval)
  show ?thesis
    unfolding e by (simp add: descendingBy_def defaultFilters_def tokenA_def tokenB_def)
qed

subsection \<open>Classification of the slope\<close>








subsection \<open>Trend and input order\<close>

lemma arraySort_timestamp:
  "arraySort (\<lambda>a b. timestamp a - timestamp b) h = sort_key timestamp h"
  by (rule arraySort_sort_key) simp

text \<open>
  Claim C5. When the timestamps of a history are pairwise distinct, every rearrangement of
  the samples has the same trend, for the liquidity and for the holders selector: sorting by
  timestamp brings every rearrangement to the same list, on which the same operations are
  then carried out, whatever the arithmetic of the runtime is.
\<close>

theorem trend_order_invariant:
  assumes "distinct (map timestamp h)" and "mset h' = mset h"
  shows "calculateTrend A h' ty = calculateTrend A h ty"
proof -
  have len: "length h' = length h"
    using assms(2) by (rule mset_eq_length)
  have "set h' = set h"
    using assms(2) by (rule mset_eq_setD)
  then have inj: "inj_on timestamp (set h')"
    using assms(1) by (simp add: distinct_map)
  have "mset h' = mset (sort_key timestamp h)"
    using assms(2) by simp
  then have "sort_key timestamp h' = sort_key timestamp h"
    using inj by (rule sort_key_inj_key_eq) simp
  then have "sortedValues h' ty = sortedValues h ty"
    by (simp add: sortedValues_def arraySort_timestamp)
  then show ?thesis
    by (simp add: calculateTrend_def len)
qed

theorem trend_order_invariant_witness:
  "distinct (map timestamp historyRising) \<and>
   mset (rev historyRising) = mset historyRising \<and>
   rev historyRising \<noteq> historyRising \<and>
   calculateTrend exactArith (rev historyRising) Liquidity
     = calculateTrend exactArith historyRising Liquidity \<and>
   calculateTrend exactArith (rev historyRising) Holders
     = calculateTrend exactArith historyRising Holders"
proof -
  have d: "distinct (map timestamp historyRising)"
    by (simp add: historyRising_def)
  have m: "mset (rev historyRising) = mset historyRising"
    by simp
  have n: "rev historyRising \<noteq> historyRising"
    by (simp add: historyRising_def)
  show ?thesis
    using d m n trend_order_invariant [OF d m, where A = exactArith and ty = Liquidity]
      trend_order_invariant [OF d m, where A = exactArith and ty = Holders]
    by (intro conjI)
qed

subsection \<open>The slope in exact arithmetic\<close>

text \<open>
  What follows disregards rounding, overflow and NaN: it is about the arithmetic
  \<open>exactArith\<close> only. There the folds of \<^verbatim>\<open>calculateTrend\<close> are sums over the positions
  and the slope is the quotient of two double sums over pairs of positions, which makes its
  sign visible. With at least two samples the divisor of the slope is positive.
\<close>

lemma foldl_add_sum_list:
  fixes a :: real
  shows "foldl (\<lambda>acc x. acc + h x) a xs = a + sum_list (map h xs)"
  by (induction xs arbitrary: a) simp_all

lemma sum_list_upt: "sum_list (map h [0..<n]) = (\<Sum>i<n. (h i :: real))"
  by (simp add: interv_sum_list_conv_sum_set_nat atLeast0LessThan)

lemma foldl_plus_nth:
  fixes ys :: "real list"
  shows "foldl (+) 0 ys = (\<Sum>i<length ys. ys ! i)"
proof -
  have "foldl (+) 0 ys = sum_list (map (\<lambda>y. y) ys)"
    using foldl_add_sum_list [of "\<lambda>y. y" 0 ys] by simp
  also have "\<dots> = sum_list (map (\<lambda>i. ys ! i) [0..<length ys])"
    by (simp add: map_nth)
  also have "\<dots> = (\<Sum>i<length ys. ys ! i)"
    by (rule sum_list_upt)
  finally show ?thesis .
qed

lemma foldl_pair_sum_list:
  fixes a :: real
  shows "foldl (\<lambda>acc (x, i). acc + g x i) a zs = a + sum_list (map (\<lambda>(x, i). g x i) zs)"
  by (induction zs arbitrary: a) auto

lemma reduceIdx_upt:
  fixes g :: "real \<Rightarrow> nat \<Rightarrow> real"
  shows "reduceIdx (\<lambda>acc x i. acc + g x i) 0 (map real [0..<n]) = (\<Sum>i<n. g (real i) i)"
proof -
  have z: "zip (map real [0..<n]) [0..<n] = map (\<lambda>i. (real i, i)) [0..<n]"
    by (simp add: zip_map1 zip_same_conv_map)
  have "reduceIdx (\<lambda>acc x i. acc + g x i) 0 (map real [0..<n])
        = sum_list (map (\<lambda>(x, i). g x i) (map (\<lambda>i. (real i, i)) [0..<n]))"
    by (simp add: reduceIdx_def z foldl_pair_sum_list)
  also have "\<dots> = sum_list (map (\<lambda>i. g (real i) i) [0..<n])"
    by (simp add: comp_def)
  also have "\<dots> = (\<Sum>i<n. g (real i) i)"
    by (rule sum_list_upt)
  finally show ?thesis .
qed

lemma trendSlope_sums:
  "trendSlope exactArith ys =
     (\<Sum>i<length ys. (real i - ((\<Sum>i<length ys. real i) / real (length ys))) * (ys ! i - ((\<Sum>i<length ys. ys ! i) / real (length ys))))
       / (\<Sum>i<length ys. (real i - ((\<Sum>i<length ys. real i) / real (length ys)))\<^sup>2)"
proof -
  have a: "foldl (+) 0 (map real [0..<length ys]) = (\<Sum>i<length ys. real i)"
    using foldl_plus_nth [of "map real [0..<length ys]"] by simp
  have b: "foldl (\<lambda>acc x. acc + (x - m)\<^sup>2) 0 (map real [0..<n]) = (\<Sum>i<n. (real i - m)\<^sup>2)" for m n
    by (simp add: foldl_add_sum_list comp_def sum_list_upt)
  show ?thesis
    by (simp add: trendSlope_def exactArith_def Let_def a b reduceIdx_upt foldl_plus_nth)
qed

lemma cov_double_sum:
  fixes f g :: "nat \<Rightarrow> real"
  assumes "0 < n"
  shows "(\<Sum>i<n. \<Sum>j<n. (f i - f j) * (g i - g j))
         = 2 * real n * (\<Sum>i<n. (f i - (\<Sum>i<n. f i) / real n) * (g i - (\<Sum>i<n. g i) / real n))"
proof -
  define F where "F = (\<Sum>i<n. f i)"
  define G where "G = (\<Sum>i<n. g i)"
  define P where "P = (\<Sum>i<n. f i * g i)"
  have n: "real n \<noteq> 0" using assms by simp
  have inner: "(\<Sum>j<n. (f i - f j) * (g i - g j)) = real n * (f i * g i) - f i * G - F * g i + P" for i
  proof -
    have "(\<Sum>j<n. (f i - f j) * (g i - g j))
          = (\<Sum>j<n. f i * g i - f i * g j - f j * g i + f j * g j)"
      by (simp add: algebra_simps)
    also have "\<dots> = real n * (f i * g i) - f i * G - F * g i + P"
      by (simp add: sum.distrib sum_subtractf sum_distrib_left sum_distrib_right F_def G_def P_def)
    finally show ?thesis .
  qed
  have lhs: "(\<Sum>i<n. \<Sum>j<n. (f i - f j) * (g i - g j)) = 2 * real n * P - 2 * F * G"
  proof -
    have "(\<Sum>i<n. \<Sum>j<n. (f i - f j) * (g i - g j))
          = (\<Sum>i<n. real n * (f i * g i) - f i * G - F * g i + P)"
      by (simp add: inner)
    also have "\<dots> = real n * P - F * G - F * G + real n * P"
      by (simp add: sum.distrib sum_subtractf sum_distrib_left [symmetric]
          sum_distrib_right [symmetric] F_def [symmetric] G_def [symmetric] P_def [symmetric])
    finally show ?thesis by simp
  qed
  have rhs: "(\<Sum>i<n. (f i - F / real n) * (g i - G / real n)) = P - F * G / real n"
  proof -
    define mf where "mf = F / real n"
    define mg where "mg = G / real n"
    have "(\<Sum>i<n. (f i - mf) * (g i - mg))
          = (\<Sum>i<n. f i * g i - f i * mg - mf * g i + mf * mg)"
      by (simp add: algebra_simps)
    also have "\<dots> = P - F * mg - mf * G + real n * (mf * mg)"
      by (simp add: sum.distrib sum_subtractf sum_distrib_left [symmetric]
          sum_distrib_right [symmetric] F_def [symmetric] G_def [symmetric] P_def [symmetric])
    also have "\<dots> = P - F * G / real n"
      using n by (simp add: field_simps mf_def mg_def)
    finally show ?thesis
      by (simp add: mf_def mg_def)
  qed
  have "2 * real n * (P - F * G / real n) = 2 * real n * P - 2 * F * G"
    using n by (simp add: field_simps)
  then show ?thesis
    unfolding lhs F_def [symmetric] G_def [symmetric] rhs by simp
qed


lemma trendSlope_double_sums:
  assumes "0 < length ys"
  shows "trendSlope exactArith ys = crossSum ys / squareSum (length ys)"
proof -
  define n where "n = length ys"
  have n: "0 < n" "real n \<noteq> 0"
    using assms by (simp_all add: n_def)
  define N where "N = (\<Sum>i<n. (real i - (\<Sum>i<n. real i) / real n) * (ys ! i - (\<Sum>i<n. ys ! i) / real n))"
  define D where "D = (\<Sum>i<n. (real i - (\<Sum>i<n. real i) / real n) * (real i - (\<Sum>i<n. real i) / real n))"
  have slope: "trendSlope exactArith ys = N / D"
    by (simp add: trendSlope_sums N_def D_def n_def power2_eq_square)
  have c: "crossSum ys = 2 * real n * N"
    unfolding crossSum_def N_def n_def [symmetric]
    by (rule cov_double_sum [OF n(1)])
  have q: "squareSum n = 2 * real n * D"
    unfolding squareSum_def D_def
    by (rule cov_double_sum [OF n(1)])
  show ?thesis
    using n by (simp add: slope c q n_def [symmetric])
qed

lemma squareSum_pos:
  assumes "2 \<le> n"
  shows "0 < squareSum n"
proof -
  have inner: "0 < (\<Sum>j<n. (real 0 - real j) * (real 0 - real j))"
  proof (rule sum_pos2 [where i = 1])
    show "1 \<in> {..<n}" using assms by simp
  qed simp_all
  show ?thesis
    unfolding squareSum_def
  proof (rule sum_pos2 [where i = 0])
    show "0 \<in> {..<n}" using assms by simp
    show "0 < (\<Sum>j<n. (real 0 - real j) * (real 0 - real j))" by (rule inner)
    show "0 \<le> (\<Sum>j<n. (real i - real j) * (real i - real j))" for i
      by (rule sum_nonneg) simp
  qed simp
qed

lemma crossSum_ge:
  assumes "\<And>i j. j \<le> i \<Longrightarrow> i < length ys \<Longrightarrow> d * (real i - real j) \<le> ys ! i - ys ! j"
  shows "d * squareSum (length ys) \<le> crossSum ys"
proof -
  have tm: "d * ((real i - real j) * (real i - real j)) \<le> (real i - real j) * (ys ! i - ys ! j)"
    if "i < length ys" "j < length ys" for i j
  proof (cases "j \<le> i")
    case True
    then have "0 \<le> real i - real j" by simp
    then have "(real i - real j) * (d * (real i - real j)) \<le> (real i - real j) * (ys ! i - ys ! j)"
      using assms [OF True that(1)] by (rule mult_left_mono [rotated])
    then show ?thesis by (simp add: mult_ac)
  next
    case False
    then have le: "i \<le> j" by simp
    then have "0 \<le> real j - real i" by simp
    then have "(real j - real i) * (d * (real j - real i)) \<le> (real j - real i) * (ys ! j - ys ! i)"
      using assms [OF le that(2)] by (rule mult_left_mono [rotated])
    moreover have "(real j - real i) * (ys ! j - ys ! i) = (real i - real j) * (ys ! i - ys ! j)"
      by (simp add: algebra_simps)
    moreover have "(real j - real i) * (d * (real j - real i)) = d * ((real i - real j) * (real i - real j))"
      by (simp add: algebra_simps)
    ultimately show ?thesis by simp
  qed
  show ?thesis
    unfolding squareSum_def crossSum_def sum_distrib_left
    by (intro sum_mono) (simp add: tm)
qed

lemma crossSum_pos:
  assumes "2 \<le> length ys" and "sorted_wrt (<) ys"
  shows "0 < crossSum ys"
proof -
  have less: "ys ! j < ys ! i" if "j < i" "i < length ys" for i j
    using assms(2) that by (simp add: sorted_wrt_nth_less)
  have tm: "0 \<le> (real i - real j) * (ys ! i - ys ! j)"
    if "i < length ys" "j < length ys" for i j
  proof -
    consider "j < i" | "i = j" | "i < j" by linarith
    then show ?thesis
    proof cases
      case 1
      then have "0 \<le> real i - real j" and "0 \<le> ys ! i - ys ! j"
        using less [OF 1 that(1)] by simp_all
      then show ?thesis by (rule mult_nonneg_nonneg)
    next
      case 2
      then show ?thesis by simp
    next
      case 3
      then have "real i - real j \<le> 0" and "ys ! i - ys ! j \<le> 0"
        using less [OF 3 that(2)] by simp_all
      then show ?thesis by (rule mult_nonpos_nonpos)
    qed
  qed
  have inner: "0 < (\<Sum>j<length ys. (real 1 - real j) * (ys ! 1 - ys ! j))"
  proof (rule sum_pos2 [where i = 0])
    show "0 \<in> {..<length ys}" using assms(1) by auto
    show "0 < (real 1 - real 0) * (ys ! 1 - ys ! 0)"
      using less [of 0 1] assms(1) by simp
    show "0 \<le> (real 1 - real j) * (ys ! 1 - ys ! j)" if "j \<in> {..<length ys}" for j
      using tm [of 1 j] that assms(1) by simp
  qed simp
  show ?thesis
    unfolding crossSum_def
  proof (rule sum_pos2 [where i = 1])
    show "1 \<in> {..<length ys}" using assms(1) by simp
    show "0 < (\<Sum>j<length ys. (real 1 - real j) * (ys ! 1 - ys ! j))" by (rule inner)
    show "0 \<le> (\<Sum>j<length ys. (real i - real j) * (ys ! i - ys ! j))"
      if "i \<in> {..<length ys}" for i
      using that by (intro sum_nonneg) (simp add: tm)
  qed simp
qed


lemma successively_nth:
  "successively P xs \<Longrightarrow> Suc i < length xs \<Longrightarrow> P (xs ! i) (xs ! Suc i)"
proof (induction P xs arbitrary: i rule: successively.induct)
  case (3 P x y xs)
  then show ?case by (cases i) simp_all
qed simp_all

lemma steps_accumulate:
  assumes "stepsAtLeast d ys" and "j \<le> i" and "i < length ys"
  shows "d * (real i - real j) \<le> ys ! i - ys ! j"
  using assms(2,3)
proof (induction i)
  case 0
  then show ?case by simp
next
  case (Suc i)
  show ?case
  proof (cases "j = Suc i")
    case True
    then show ?thesis by simp
  next
    case False
    with Suc.prems have "j \<le> i" and "i < length ys" by simp_all
    then have ih: "d * (real i - real j) \<le> ys ! i - ys ! j"
      by (rule Suc.IH)
    have "ys ! i + d \<le> ys ! Suc i"
      using assms(1) Suc.prems(2) unfolding stepsAtLeast_def by (rule successively_nth)
    with ih show ?thesis
      by (simp add: algebra_simps)
  qed
qed

lemma slope_pos:
  assumes "2 \<le> length ys" and "sorted_wrt (<) ys"
  shows "0 < trendSlope exactArith ys"
proof -
  have "0 < length ys" using assms(1) by linarith
  then have "trendSlope exactArith ys = crossSum ys / squareSum (length ys)"
    by (rule trendSlope_double_sums)
  then show ?thesis
    using crossSum_pos [OF assms] squareSum_pos [OF assms(1)] by simp
qed

lemma slope_ge:
  assumes "2 \<le> length ys" and "stepsAtLeast d ys"
  shows "d \<le> trendSlope exactArith ys"
proof -
  have "0 < length ys" using assms(1) by linarith
  then have s: "trendSlope exactArith ys = crossSum ys / squareSum (length ys)"
    by (rule trendSlope_double_sums)
  have "d * squareSum (length ys) \<le> crossSum ys"
    by (rule crossSum_ge) (rule steps_accumulate [OF assms(2)])
  then show ?thesis
    using squareSum_pos [OF assms(1)] by (simp add: s pos_le_divide_eq)
qed

lemma crossSum_uminus: "crossSum (map uminus ys) = - crossSum ys"
proof -
  have "(real i - real j) * (- (ys ! i) - - (ys ! j)) = - ((real i - real j) * (ys ! i - ys ! j))"
    for i j
    by (simp add: algebra_simps)
  then show ?thesis
    by (simp add: crossSum_def sum_negf)
qed

lemma slope_uminus:
  assumes "0 < length ys"
  shows "trendSlope exactArith (map uminus ys) = - trendSlope exactArith ys"
  using assms by (simp add: trendSlope_double_sums crossSum_uminus)

lemma slope_neg:
  assumes "2 \<le> length ys" and "sorted_wrt (>) ys"
  shows "trendSlope exactArith ys < 0"
proof -
  have "sorted_wrt (<) (map uminus ys)"
    using assms(2) by (simp add: sorted_wrt_map)
  then have "0 < trendSlope exactArith (map uminus ys)"
    using assms(1) by (intro slope_pos) simp_all
  moreover have "0 < length ys"
    using assms(1) by linarith
  ultimately show ?thesis
    by (simp add: slope_uminus)
qed

lemma slope_le:
  assumes "2 \<le> length ys" and "stepsAtMost (- d) ys"
  shows "trendSlope exactArith ys \<le> - d"
proof -
  have "successively (\<lambda>a b. - a + d \<le> - b) ys"
    using assms(2) unfolding stepsAtMost_def by (rule successively_mono) simp
  then have "stepsAtLeast d (map uminus ys)"
    by (simp add: stepsAtLeast_def successively_map)
  then have "d \<le> trendSlope exactArith (map uminus ys)"
    using assms(1) by (intro slope_ge) simp_all
  moreover have "0 < length ys"
    using assms(1) by linarith
  ultimately show ?thesis
    by (simp add: slope_uminus)
qed

lemma slope_constant:
  assumes "0 < length ys" and "\<forall>y\<in>set ys. y = c"
  shows "trendSlope exactArith ys = 0"
proof -
  have c: "ys ! i = c" if "i < length ys" for i
  proof -
    have "ys ! i \<in> set ys"
      using that by (rule nth_mem)
    then show ?thesis
      using assms(2) by blast
  qed
  have "crossSum ys = 0"
    unfolding crossSum_def
  proof (intro sum.neutral ballI)
    fix i j
    assume "i \<in> {..<length ys}" and "j \<in> {..<length ys}"
    then have "ys ! i = c" and "ys ! j = c"
      by (simp_all add: c)
    then show "(real i - real j) * (ys ! i - ys ! j) = 0"
      by simp
  qed
  then show ?thesis
    using assms(1) by (simp add: trendSlope_double_sums)
qed

lemma length_arraySort: "length (arraySort cmp xs) = length xs"
  using mset_arraySort [of cmp xs] by (metis size_mset)

lemma length_sortedValues: "length (sortedValues h ty) = length h"
  by (simp add: sortedValues_def length_arraySort)

lemma slope_divisor_pos:
  assumes "2 \<le> n"
  shows "0 < (\<Sum>i<n. (real i - (\<Sum>i<n. real i) / real n)\<^sup>2)"
proof -
  have n: "0 < n" using assms by linarith
  have "squareSum n = 2 * real n * (\<Sum>i<n. (real i - (\<Sum>i<n. real i) / real n)\<^sup>2)"
    unfolding squareSum_def power2_eq_square by (rule cov_double_sum [OF n])
  then show ?thesis
    using squareSum_pos [OF assms] n by (simp add: zero_less_mult_iff)
qed

text \<open>
  In exact arithmetic constant values give \<^verbatim>\<open>stagnant\<close>; strictly increasing values give
  \<^verbatim>\<open>up\<close> unless the slope is below 0.05, and \<^verbatim>\<open>up\<close> whenever every step between
  neighbours is at least 0.05; strictly decreasing values behave symmetrically. None of this
  carries over to double arithmetic as it stands, where a slope next to the threshold may
  round to either side and an overflow makes the slope NaN.
\<close>

lemma exact_trend_of_monotone_series:
  "(length h < 2 \<longrightarrow> calculateTrend exactArith h ty = Stagnant) \<and>
   (2 \<le> length h \<and> (\<forall>y\<in>set (sortedValues h ty). y = c) \<longrightarrow> calculateTrend exactArith h ty = Stagnant) \<and>
   (2 \<le> length h \<and> sorted_wrt (<) (sortedValues h ty) \<longrightarrow>
      calculateTrend exactArith h ty = (if trendSlope exactArith (sortedValues h ty) < 5 / 100 then Stagnant else Up)) \<and>
   (2 \<le> length h \<and> sorted_wrt (>) (sortedValues h ty) \<longrightarrow>
      calculateTrend exactArith h ty = (if - (5 / 100) < trendSlope exactArith (sortedValues h ty) then Stagnant else Down)) \<and>
   (2 \<le> length h \<and> stepsAtLeast (5 / 100) (sortedValues h ty) \<longrightarrow> calculateTrend exactArith h ty = Up) \<and>
   (2 \<le> length h \<and> stepsAtMost (- (5 / 100)) (sortedValues h ty) \<longrightarrow> calculateTrend exactArith h ty = Down)"
proof -
  define ys where "ys = sortedValues h ty"
  have len: "length ys = length h"
    by (simp add: ys_def length_sortedValues)
  have ct: "calculateTrend exactArith h ty =
      (if \<bar>trendSlope exactArith ys\<bar> < 5 / 100 then Stagnant else if trendSlope exactArith ys > 0 then Up else Down)"
    if "2 \<le> length h"
    using that by (simp add: calculateTrend_def exactArith_def ys_def Let_def)
  have 1: "length h < 2 \<longrightarrow> calculateTrend exactArith h ty = Stagnant"
    by (simp add: calculateTrend_def)
  have 2: "2 \<le> length h \<and> (\<forall>y\<in>set ys. y = c) \<longrightarrow> calculateTrend exactArith h ty = Stagnant"
  proof
    assume a: "2 \<le> length h \<and> (\<forall>y\<in>set ys. y = c)"
    then have "0 < length ys" and "\<forall>y\<in>set ys. y = c"
      using len by (linarith, blast)
    then have "trendSlope exactArith ys = 0"
      by (rule slope_constant)
    then show "calculateTrend exactArith h ty = Stagnant"
      using a by (simp add: ct)
  qed
  have 3: "2 \<le> length h \<and> sorted_wrt (<) ys \<longrightarrow>
      calculateTrend exactArith h ty = (if trendSlope exactArith ys < 5 / 100 then Stagnant else Up)"
  proof
    assume a: "2 \<le> length h \<and> sorted_wrt (<) ys"
    then have "0 < trendSlope exactArith ys"
      using len by (intro slope_pos) simp_all
    then show "calculateTrend exactArith h ty = (if trendSlope exactArith ys < 5 / 100 then Stagnant else Up)"
      using a by (simp add: ct)
  qed
  have 4: "2 \<le> length h \<and> sorted_wrt (>) ys \<longrightarrow>
      calculateTrend exactArith h ty = (if - (5 / 100) < trendSlope exactArith ys then Stagnant else Down)"
  proof
    assume a: "2 \<le> length h \<and> sorted_wrt (>) ys"
    then have "trendSlope exactArith ys < 0"
      using len by (intro slope_neg) simp_all
    then show "calculateTrend exactArith h ty = (if - (5 / 100) < trendSlope exactArith ys then Stagnant else Down)"
      using a by (simp add: ct)
  qed
  have 5: "2 \<le> length h \<and> stepsAtLeast (5 / 100) ys \<longrightarrow> calculateTrend exactArith h ty = Up"
  proof
    assume a: "2 \<le> length h \<and> stepsAtLeast (5 / 100) ys"
    then have "5 / 100 \<le> trendSlope exactArith ys"
      using len by (intro slope_ge) simp_all
    then show "calculateTrend exactArith h ty = Up"
      using a by (simp add: ct)
  qed
  have 6: "2 \<le> length h \<and> stepsAtMost (- (5 / 100)) ys \<longrightarrow> calculateTrend exactArith h ty = Down"
  proof
    assume a: "2 \<le> length h \<and> stepsAtMost (- (5 / 100)) ys"
    then have "trendSlope exactArith ys \<le> - (5 / 100)"
      using len by (intro slope_le) simp_all
    then show "calculateTrend exactArith h ty = Down"
      using a by (simp add: ct)
  qed
  from 1 2 3 4 5 6 show ?thesis
    unfolding ys_def by (intro conjI)
qed

subsection \<open>Expand all, collapse all\<close>

text \<open>
  Claim C7. The bulk operation collapses everything as soon as one token of the current
  filtered sequence is expanded, even if it is the only one; when none is, the new expansion
  set is exactly the set of identifiers of the filtered tokens.
\<close>

theorem expand_all_toggle:
  "((\<exists>t\<in>set currentTokens. tokenAddress t \<in> prev) \<longrightarrow> toggleExpandAll currentTokens prev = {}) \<and>
   ((\<forall>t\<in>set currentTokens. tokenAddress t \<notin> prev) \<longrightarrow>
      toggleExpandAll currentTokens prev = tokenAddress ` set currentTokens)"
  by (simp add: toggleExpandAll_def list_ex_iff)

lemma example_filtered:
  "filteredTokens exactArith asciiLower exampleParse defaultFilters [tokenA, tokenB, tokenC] = [tokenB, tokenA, tokenC]"
  by (simp add: pipeline_eval ex_eval str_eval)

theorem expand_all_toggle_witness:
  "toggleExpandAll (filteredTokens exactArith asciiLower exampleParse defaultFilters [tokenA, tokenB, tokenC]) {''0xA1''} = {} \<and>
   toggleExpandAll (filteredTokens exactArith asciiLower exampleParse defaultFilters [tokenA, tokenB, tokenC]) {''0xD4''}
     = {''0xB2'', ''0xA1'', ''0xC3''} \<and>
   toggleExpandAll (filteredTokens exactArith asciiLower exampleParse defaultFilters [tokenA, tokenB, tokenC]) {}
     = {''0xB2'', ''0xA1'', ''0xC3''}"
proof -
  have a: "\<exists>t\<in>set [tokenB, tokenA, tokenC]. tokenAddress t \<in> {''0xA1''}"
    by (simp add: tokenA_def)
  have b: "\<forall>t\<in>set [tokenB, tokenA, tokenC]. tokenAddress t \<notin> {''0xD4''}"
    by (simp add: tokenA_def tokenB_def tokenC_def)
  have c: "\<forall>t\<in>set [tokenB, tokenA, tokenC]. tokenAddress t \<notin> {}"
    by simp
  have i: "tokenAddress ` set [tokenB, tokenA, tokenC] = {''0xB2'', ''0xA1'', ''0xC3''}"
    by (simp add: tokenA_def tokenB_def tokenC_def)
  have 1: "toggleExpandAll [tokenB, tokenA, tokenC] {''0xA1''} = {}"
    using a by (rule expand_all_toggle [THEN conjunct1, THEN mp])
  have 2: "toggleExpandAll [tokenB, tokenA, tokenC] {''0xD4''} = tokenAddress ` set [tokenB, tokenA, tokenC]"
    using b by (rule expand_all_toggle [THEN conjunct2, THEN mp])
  have 3: "toggleExpandAll [tokenB, tokenA, tokenC] {} = tokenAddress ` set [tokenB, tokenA, tokenC]"
    using c by (rule expand_all_toggle [THEN conjunct2, THEN mp])
  from 1 2 3 show ?thesis
    unfolding example_filtered i by (intro conjI)
qed

subsection \<open>Clicking a token\<close>

lemma findIndex_found:
  assumes "\<exists>x\<in>set xs. p x"
  shows "0 \<le> findIndex p xs \<and> findIndex p xs < int (length xs) \<and> p (xs ! nat (findIndex p xs))"
  using assms
proof (induction xs)
  case Nil
  then show ?case by simp
next
  case (Cons x xs)
  show ?case
  proof (cases "p x")
    case True
    then show ?thesis by simp
  next
    case False
    with Cons.prems have "\<exists>x\<in>set xs. p x" by simp
    then have ih: "0 \<le> findIndex p xs \<and> findIndex p xs < int (length xs) \<and> p (xs ! nat (findIndex p xs))"
      by (rule Cons.IH)
    then have "nat (findIndex p xs + 1) = Suc (nat (findIndex p xs))"
      by arith
    with ih False show ?thesis
      by (simp add: Let_def)
  qed
qed

lemma findIndex_distinct:
  assumes "X \<in> set xs" and "distinct (map key xs)"
    and "i = findIndex (\<lambda>t. key t = key X) xs"
  shows "xs ! nat i = X"
proof -
  have f: "0 \<le> i \<and> i < int (length xs) \<and> key (xs ! nat i) = key X"
    unfolding assms(3) by (rule findIndex_found) (use assms(1) in blast)
  obtain k where k: "k < length xs" "xs ! k = X"
    using assms(1) by (auto simp: in_set_conv_nth)
  have n: "nat i < length xs"
    using f by arith
  have "map key xs ! nat i = map key xs ! k"
    using f k n by simp
  moreover have "nat i < length (map key xs)" and "k < length (map key xs)"
    using n k(1) by simp_all
  ultimately have "nat i = k"
    using assms(2) by (simp only: nth_eq_iff_index_eq)
  then show ?thesis
    using k(2) by simp
qed

text \<open>
  Claim C8. For a token \<open>X\<close> of the filtered sequence, \<^verbatim>\<open>handleTokenClick\<close> finds a valid
  view index \<open>i\<close> holding a token with the identifier of \<open>X\<close> (the token \<open>X\<close> itself when
  identifiers are unique), removes the measured height stored for \<open>i\<close>, leaves the entry
  of every other index as it was, asks the virtualizer to measure and requests a scroll to
  index \<open>i\<close>; the expansion of \<open>X\<close> is toggled.
\<close>

theorem token_click_effects:
  assumes "X \<in> set filtered"
    and "i = findIndex (\<lambda>t. tokenAddress t = tokenAddress X) filtered"
    and "st' = handleTokenClick filtered (tokenAddress X) st"
  shows "0 \<le> i \<and> i < int (length filtered) \<and>
         tokenAddress (filtered ! nat i) = tokenAddress X \<and>
         (distinct (map tokenAddress filtered) \<longrightarrow> filtered ! nat i = X) \<and>
         measuredHeights st' i = None \<and>
         (\<forall>j. j \<noteq> i \<longrightarrow> measuredHeights st' j = measuredHeights st j) \<and>
         calls st' = calls st @ [Measure, DeferredScrollToIndex i] \<and>
         expandedTokens st' = toggleTokenExpansion (tokenAddress X) (expandedTokens st)"
proof -
  have f: "0 \<le> i \<and> i < int (length filtered) \<and> tokenAddress (filtered ! nat i) = tokenAddress X"
    unfolding assms(2) by (rule findIndex_found) (use assms(1) in blast)
  have d: "distinct (map tokenAddress filtered) \<longrightarrow> filtered ! nat i = X"
    using assms(1,2) by (blast intro: findIndex_distinct)
  have s: "st' = st\<lparr>expandedTokens := toggleTokenExpansion (tokenAddress X) (expandedTokens st),
                    measuredHeights := (measuredHeights st)(i := None),
                    calls := calls st @ [Measure, DeferredScrollToIndex i]\<rparr>"
    using f by (simp add: assms(3) handleTokenClick_def Let_def assms(2) [symmetric])
  show ?thesis
    using f d by (simp add: s)
qed

theorem token_click_effects_witness:
  "tokenA \<in> set [tokenB, tokenA, tokenC] \<and>
   findIndex (\<lambda>t. tokenAddress t = tokenAddress tokenA) [tokenB, tokenA, tokenC] = 1 \<and>
   measuredHeights (handleTokenClick [tokenB, tokenA, tokenC] (tokenAddress tokenA) exampleState) 1 = None \<and>
   measuredHeights (handleTokenClick [tokenB, tokenA, tokenC] (tokenAddress tokenA) exampleState) 0 = Some 0 \<and>
   measuredHeights (handleTokenClick [tokenB, tokenA, tokenC] (tokenAddress tokenA) exampleState) 2 = Some 61 \<and>
   calls (handleTokenClick [tokenB, tokenA, tokenC] (tokenAddress tokenA) exampleState)
     = [Measure, DeferredScrollToIndex 1] \<and>
   expandedTokens (handleTokenClick [tokenB, tokenA, tokenC] (tokenAddress tokenA) exampleState) = {}"
proof -
  have m: "tokenA \<in> set [tokenB, tokenA, tokenC]"
    by simp
  have i: "1 = findIndex (\<lambda>t. tokenAddress t = tokenAddress tokenA) [tokenB, tokenA, tokenC]"
    by (simp add: tokenA_def tokenB_def)
  have e: "measuredHeights exampleState 0 = Some 0" "measuredHeights exampleState 2 = Some 61"
    "calls exampleState = []"
    "toggleTokenExpansion (tokenAddress tokenA) (expandedTokens exampleState) = {}"
    by (simp_all add: exampleState_def toggleTokenExpansion_def tokenA_def)
  note w = token_click_effects [OF m i refl, of exampleState]
  note r = w [THEN conjunct2, THEN conjunct2, THEN conjunct2, THEN conjunct2]
  note c5 = r [THEN conjunct1]
  note c6 = r [THEN conjunct2, THEN conjunct1]
  note c7 = r [THEN conjunct2, THEN conjunct2, THEN conjunct1]
  note c8 = r [THEN conjunct2, THEN conjunct2, THEN conjunct2]
  have h0:
    "measuredHeights (handleTokenClick [tokenB, tokenA, tokenC] (tokenAddress tokenA) exampleState) 0 = Some 0"
    using c6 [rule_format, of 0] e(1) by simp
  have h2:
    "measuredHeights (handleTokenClick [tokenB, tokenA, tokenC] (tokenAddress tokenA) exampleState) 2 = Some 61"
    using c6 [rule_format, of 2] e(2) by simp
  have cs:
    "calls (handleTokenClick [tokenB, tokenA, tokenC] (tokenAddress tokenA) exampleState)
       = [Measure, DeferredScrollToIndex 1]"
    using c7 e(3) by simp
  have ex:
    "expandedTokens (handleTokenClick [tokenB, tokenA, tokenC] (tokenAddress tokenA) exampleState) = {}"
    using c8 e(4) by simp
  from m i [symmetric] c5 h0 h2 cs ex show ?thesis
    by (intro conjI)
qed

subsection \<open>Loading the history cache\<close>

text \<open>
  Claim C9. The loader returns the stored mapping when the blob parses and
  \<^verbatim>\<open>now - timestamp\<close> is below five minutes, and in no other case returns a non-empty
  map: a blob five or more minutes old, a blob whose parsing throws, and an absent blob all
  give the empty map. The throw is caught inside the loader, whose result is always a map.
\<close>

theorem cache_load_cases:
  "(cached = Some c \<and> c \<noteq> [] \<and> jsonParse c = Some blob \<and>
      now - blob_timestamp blob < 5 * 60 * 1000 \<longrightarrow>
      loadCachedHistories jsonParse cached now = blob_data blob) \<and>
   (cached = Some c \<and> jsonParse c = Some blob \<and> 5 * 60 * 1000 \<le> now - blob_timestamp blob \<longrightarrow>
      loadCachedHistories jsonParse cached now = Map.empty) \<and>
   (cached = Some c \<and> c \<noteq> [] \<and> jsonParse c = None \<longrightarrow>
      loadCachedHistories_try jsonParse cached now = Inl SyntaxError \<and>
      loadCachedHistories jsonParse cached now = Map.empty) \<and>
   (cached = None \<or> cached = Some [] \<longrightarrow> loadCachedHistories jsonParse cached now = Map.empty) \<and>
   (loadCachedHistories jsonParse cached now \<noteq> Map.empty \<longrightarrow>
      (\<exists>s b. cached = Some s \<and> jsonParse s = Some b \<and>
             now - blob_timestamp b < 5 * 60 * 1000 \<and>
             loadCachedHistories jsonParse cached now = blob_data b))"
proof -
  have 1: "cached = Some c \<and> c \<noteq> [] \<and> jsonParse c = Some blob \<and>
      now - blob_timestamp blob < 5 * 60 * 1000 \<longrightarrow>
      loadCachedHistories jsonParse cached now = blob_data blob"
    by (simp add: loadCachedHistories_def loadCachedHistories_try_def HISTORY_CACHE_EXPIRY_def)
  have 2: "cached = Some c \<and> jsonParse c = Some blob \<and> 5 * 60 * 1000 \<le> now - blob_timestamp blob \<longrightarrow>
      loadCachedHistories jsonParse cached now = Map.empty"
    by (simp add: loadCachedHistories_def loadCachedHistories_try_def HISTORY_CACHE_EXPIRY_def)
  have 3: "cached = Some c \<and> c \<noteq> [] \<and> jsonParse c = None \<longrightarrow>
      loadCachedHistories_try jsonParse cached now = Inl SyntaxError \<and>
      loadCachedHistories jsonParse cached now = Map.empty"
    by (simp add: loadCachedHistories_def loadCachedHistories_try_def)
  have 4: "cached = None \<or> cached = Some [] \<longrightarrow> loadCachedHistories jsonParse cached now = Map.empty"
    by (auto simp: loadCachedHistories_def loadCachedHistories_try_def)
  have 5: "loadCachedHistories jsonParse cached now \<noteq> Map.empty \<longrightarrow>
      (\<exists>s b. cached = Some s \<and> jsonParse s = Some b \<and>
             now - blob_timestamp b < 5 * 60 * 1000 \<and>
             loadCachedHistories jsonParse cached now = blob_data b)"
    by (auto simp: loadCachedHistories_def loadCachedHistories_try_def HISTORY_CACHE_EXPIRY_def
        split: option.splits if_splits)
  from 1 2 3 4 5 show ?thesis
    by (intro conjI)
qed

theorem cache_load_cases_witness:
  "loadCachedHistories exampleBlobParse (Some ''fresh'') 1000000 = blob_data exampleBlobFresh \<and>
   loadCachedHistories exampleBlobParse (Some ''old'') 1000000 = Map.empty \<and>
   loadCachedHistories exampleBlobParse (Some ''{'') 1000000 = Map.empty \<and>
   loadCachedHistories exampleBlobParse None 1000000 = Map.empty \<and>
   1000000 - blob_timestamp exampleBlobOld = 6 * 60 * 1000 \<and>
   blob_data exampleBlobFresh ''0xA1'' = Some historyRising"
proof -
  have p: "exampleBlobParse ''fresh'' = Some exampleBlobFresh"
    "exampleBlobParse ''old'' = Some exampleBlobOld" "exampleBlobParse ''{'' = None"
    by (simp_all add: exampleBlobParse_def)
  have t: "1000000 - blob_timestamp exampleBlobFresh < 5 * 60 * 1000"
    "5 * 60 * 1000 \<le> 1000000 - blob_timestamp exampleBlobOld"
    "1000000 - blob_timestamp exampleBlobOld = 6 * 60 * 1000"
    by (simp_all add: exampleBlobFresh_def exampleBlobOld_def)
  have d: "blob_data exampleBlobFresh ''0xA1'' = Some historyRising"
    by (simp add: exampleBlobFresh_def)
  have 1: "loadCachedHistories exampleBlobParse (Some ''fresh'') 1000000 = blob_data exampleBlobFresh"
    using p(1) t(1)
    by (intro cache_load_cases [where c = "''fresh''", THEN conjunct1, THEN mp]) simp
  have 2: "loadCachedHistories exampleBlobParse (Some ''old'') 1000000 = Map.empty"
    using p(2) t(2)
    by (intro cache_load_cases [where c = "''old''" and blob = exampleBlobOld,
          THEN conjunct2, THEN conjunct1, THEN mp]) simp
  have 3: "loadCachedHistories exampleBlobParse (Some ''{'') 1000000 = Map.empty"
    using p(3)
    by (intro cache_load_cases [where c = "''{''", THEN conjunct2, THEN conjunct2,
          THEN conjunct1, THEN mp, THEN conjunct2]) simp
  have 4: "loadCachedHistories exampleBlobParse None 1000000 = Map.empty"
    by (intro cache_load_cases [THEN conjunct2, THEN conjunct2, THEN conjunct2, THEN conjunct1,
          THEN mp]) simp
  from 1 2 3 4 t(3) d show ?thesis
    by (intro conjI)
qed

subsection \<open>Estimated row height\<close>

text \<open>
  Claim C10. \<^verbatim>\<open>estimateSize\<close> has a value at every integer index: 42 where the filtered
  sequence has no token; where the measured height of the index is exactly 0, or absent,
  800 if the token at the index is expanded and 42 otherwise; a non-zero measured height is
  returned as it is.
\<close>

theorem estimateSize_cases:
  "(index < 0 \<or> int (length filtered) \<le> index \<longrightarrow> estimateSize filtered st index = 42) \<and>
   (0 \<le> index \<and> index < int (length filtered) \<and>
      (measuredHeights st index = Some 0 \<or> measuredHeights st index = None) \<longrightarrow>
      estimateSize filtered st index =
        (if tokenAddress (filtered ! nat index) \<in> expandedTokens st then 800 else 42)) \<and>
   (0 \<le> index \<and> index < int (length filtered) \<and> measuredHeights st index = Some h \<and> h \<noteq> 0 \<longrightarrow>
      estimateSize filtered st index = h)"
  by (auto simp: estimateSize_def arrayGet_def COLLAPSED_HEIGHT_def EXPANDED_HEIGHT_def)

theorem estimateSize_cases_witness:
  "estimateSize [tokenA, tokenB, tokenC] exampleState (- 1) = 42 \<and>
   estimateSize [tokenA, tokenB, tokenC] exampleState 3 = 42 \<and>
   estimateSize [tokenA, tokenB, tokenC] exampleState 0 = 800 \<and>
   estimateSize [tokenA, tokenB, tokenC] (exampleState\<lparr>measuredHeights := Map.empty\<rparr>) 1 = 42 \<and>
   estimateSize [tokenA, tokenB, tokenC] exampleState 1 = 57"
proof -
  have m: "measuredHeights exampleState 0 = Some 0" "measuredHeights exampleState 1 = Some 57"
    "measuredHeights (exampleState\<lparr>measuredHeights := Map.empty\<rparr>) 1 = None"
    by (simp_all add: exampleState_def)
  have x: "tokenAddress ([tokenA, tokenB, tokenC] ! nat 0) \<in> expandedTokens exampleState"
    "tokenAddress ([tokenA, tokenB, tokenC] ! nat 1)
       \<notin> expandedTokens (exampleState\<lparr>measuredHeights := Map.empty\<rparr>)"
    by (simp_all add: exampleState_def tokenA_def tokenB_def)
  have 1: "estimateSize [tokenA, tokenB, tokenC] exampleState (- 1) = 42"
    using estimateSize_cases [of "- 1" "[tokenA, tokenB, tokenC]" exampleState 0] by simp
  have 2: "estimateSize [tokenA, tokenB, tokenC] exampleState 3 = 42"
    using estimateSize_cases [of 3 "[tokenA, tokenB, tokenC]" exampleState 0] by simp
  have 3: "estimateSize [tokenA, tokenB, tokenC] exampleState 0 = 800"
    using m(1) x(1) estimateSize_cases [of 0 "[tokenA, tokenB, tokenC]" exampleState 0] by simp
  have 4: "estimateSize [tokenA, tokenB, tokenC] (exampleState\<lparr>measuredHeights := Map.empty\<rparr>) 1 = 42"
    using m(3) x(2)
      estimateSize_cases [of 1 "[tokenA, tokenB, tokenC]" "exampleState\<lparr>measuredHeights := Map.empty\<rparr>" 0]
    by simp
  have 5: "estimateSize [tokenA, tokenB, tokenC] exampleState 1 = 57"
    using m(2) estimateSize_cases [of 1 "[tokenA, tokenB, tokenC]" exampleState 57] by simp
  from 1 2 3 4 5 show ?thesis
    by (intro conjI)
qed

end
